theory Spec2Isabelle
  imports Complex_Main "HOL-Library.Sublist" "HOL-Library.FSet"
begin

section \<open>Python strings\<close>

text \<open>
  A Python \<open>str\<close> is a sequence of Unicode code points. The program's own literals mix
  Basic Latin and Cyrillic, so a string is a list of code points (natural numbers) and an
  ASCII literal is read through \<open>ascii\<close>.
\<close>

type_synonym ustr = "nat list"

definition ascii :: "string \<Rightarrow> ustr" where
  "ascii s = map of_char s"

text \<open>\<open>needle in hay\<close>: the needle occurs as a contiguous slice of the haystack.\<close>

fun str_in :: "ustr \<Rightarrow> ustr \<Rightarrow> bool" where
  "str_in needle [] = (needle = [])"
| "str_in needle (c # cs) = (prefix needle (c # cs) \<or> str_in needle cs)"

text \<open>
  Two functions of Python's library decide what the program reads in a text:
  \<open>str.lower()\<close>, and the class \<open>\d\<close> of the patterns of \<open>re\<close>, which on a \<open>str\<close>
  pattern is every Unicode decimal digit. Their tables belong to the interpreter and not
  to the program, so the definitions below take the two functions as parameters, named
  \<open>lower\<close> and \<open>digit\<close>. A theorem holds whatever the two functions are, unless it
  states what it asks of them.
\<close>

text \<open>
  For the concrete executions only, a library that agrees with Python's on the code
  points it lists: the capitals of Basic Latin and of Cyrillic and the Kelvin sign
  \<open>U+212A\<close> for \<open>str.lower()\<close>; the Basic Latin, Arabic-Indic and fullwidth digits for
  \<open>\d\<close>.
\<close>

definition demo_lower_cp :: "nat \<Rightarrow> nat" where
  "demo_lower_cp c =
     (if 65 \<le> c \<and> c \<le> 90 then c + 32
      else if 1040 \<le> c \<and> c \<le> 1071 then c + 32
      else if 1024 \<le> c \<and> c \<le> 1039 then c + 80
      else if c = 8490 then 107
      else c)"

definition demo_lower :: "ustr \<Rightarrow> ustr" where
  "demo_lower s = map demo_lower_cp s"

definition demo_digit :: "nat \<Rightarrow> bool" where
  "demo_digit c =
     ((48 \<le> c \<and> c \<le> 57) \<or> (1632 \<le> c \<and> c \<le> 1641) \<or> (65296 \<le> c \<and> c \<le> 65305))"

text \<open>\<open>str(n)\<close> of an integer, as the f-strings of the program format it.\<close>

fun dec_digits :: "nat \<Rightarrow> ustr" where
  "dec_digits n = (if n < 10 then [48 + n] else dec_digits (n div 10) @ [48 + n mod 10])"

declare dec_digits.simps [simp del]

definition str_int :: "int \<Rightarrow> ustr" where
  "str_int i = (if i < 0 then 45 # dec_digits (nat (- i)) else dec_digits (nat i))"

text \<open>\<open>html.escape(s)\<close> with its default \<open>quote=True\<close>.\<close>

definition html_escape_cp :: "nat \<Rightarrow> ustr" where
  "html_escape_cp c =
     (if c = 38 then ascii ''&amp;''
      else if c = 60 then ascii ''&lt;''
      else if c = 62 then ascii ''&gt;''
      else if c = 34 then ascii ''&quot;''
      else if c = 39 then ascii ''&#x27;''
      else [c])"

definition html_escape :: "ustr \<Rightarrow> ustr" where
  "html_escape s = concat (map html_escape_cp s)"

text \<open>An exception is known to the program through \<open>str(error)\<close> only.\<close>

datatype exn = Exn ustr

fun str_exn :: "exn \<Rightarrow> ustr" where
  "str_exn (Exn msg) = msg"

section \<open>models.py and config.py\<close>

datatype DownloadStatus = QUEUED | DOWNLOADING | SENDING | COMPLETED | FAILED

datatype Platform =
    YOUTUBE | TIKTOK | INSTAGRAM | FACEBOOK | TWITTER | VK | REDDIT | PINTEREST
  | DAILYMOTION | VIMEO | SOUNDCLOUD | DIRECT | UNKNOWN

text \<open>\<open>FileFormat.VIDEO.value\<close> and \<open>FileFormat.AUDIO.value\<close>.\<close>

definition VIDEO :: ustr where
  "VIDEO = ascii ''video''"

definition AUDIO :: ustr where
  "AUDIO = ascii ''audio''"

text \<open>
  The lifecycle fields of \<open>DownloadTask\<close> that \<open>_handle_download\<close> writes; the two
  timestamps are wall-clock readings and are left out.
\<close>

record DownloadTask =
  task_id :: int
  user_id :: int
  url :: ustr
  mode :: ustr
  status :: DownloadStatus
  error_message :: "ustr option"

definition VIDEO_EXTENSIONS :: "ustr list" where
  "VIDEO_EXTENSIONS =
     [ascii ''.mp4'', ascii ''.mkv'', ascii ''.webm'', ascii ''.avi'', ascii ''.mov'',
      ascii ''.wmv'', ascii ''.flv'']"

definition AUDIO_EXTENSIONS :: "ustr list" where
  "AUDIO_EXTENSIONS =
     [ascii ''.mp3'', ascii ''.m4a'', ascii ''.wav'', ascii ''.aac'', ascii ''.ogg'']"

section \<open>errors.py: the user-facing message\<close>

text \<open>
  \<open>ErrorManager.to_user_message\<close> returns one of seven fixed texts or a generic text that
  quotes the escaped error, cut to 350 code points. The fixed texts are named by their
  category here; the chain of substring tests is the source's, in its order, on the
  text as \<open>lower\<close> gives it.
\<close>

datatype user_message =
    DrmProtected | Unsupported | TooLarge | TimedOut | DiskSpace | ExtractorOutage
  | Unavailable | Generic ustr

text \<open>The Cyrillic token of the size test, \<open>U+0440 U+0430 U+0437 U+043C U+0435 U+0440\<close>.\<close>

definition razmer :: ustr where
  "razmer = [1088, 1072, 1079, 1084, 1077, 1088]"

definition to_user_message :: "(ustr \<Rightarrow> ustr) \<Rightarrow> exn \<Rightarrow> user_message" where
  "to_user_message lower error =
     (let msg = lower (str_exn error) in
      if str_in (ascii ''drm protected'') msg then DrmProtected
      else if str_in (ascii ''unsupported'') msg then Unsupported
      else if str_in (ascii ''too large'') msg \<or> str_in razmer msg
              \<or> str_in (ascii ''max_filesize'') msg then TooLarge
      else if str_in (ascii ''timeout'') msg \<or> str_in (ascii ''timed out'') msg then TimedOut
      else if str_in (ascii ''disk'') msg \<or> str_in (ascii ''space'') msg then DiskSpace
      else if str_in (ascii ''unable to extract webpage video data'') msg then ExtractorOutage
      else if str_in (ascii ''video not available'') msg \<or> str_in (ascii ''private'') msg
        then Unavailable
      else Generic (take 350 (html_escape (str_exn error))))"

section \<open>managers.py: per-requester quota\<close>

text \<open>
  The fields of \<open>DownloadManager\<close> that the quota operations read and write. A queue
  entry is \<open>None\<close> (the stop sentinel) or the tuple \<open>(task_id, user_id, url, mode)\<close>, the
  callback query being represented by the \<open>from_user.id\<close> it carries. Each operation
  runs under \<open>self.lock\<close> and is one step of the state.
\<close>

type_synonym item = "int \<times> int \<times> ustr \<times> ustr"

record manager =
  max_concurrent :: int
  queue :: "item option list"
  processing :: int
  task_counter :: int
  active_tasks :: "int \<rightharpoonup> int fset"
  queued_tasks :: "int \<rightharpoonup> int"

text \<open>\<open>DownloadManager.__init__\<close>.\<close>

definition new_manager :: "int \<Rightarrow> manager" where
  "new_manager mc =
     \<lparr>max_concurrent = max 1 mc, queue = [], processing = 0, task_counter = 0,
      active_tasks = Map.empty, queued_tasks = Map.empty\<rparr>"

text \<open>\<open>self.active_tasks.get(user_id, set())\<close> and \<open>self.queued_tasks.get(user_id, 0)\<close>.\<close>

definition active_of :: "manager \<Rightarrow> int \<Rightarrow> int fset" where
  "active_of m uid = (case active_tasks m uid of None \<Rightarrow> {||} | Some tasks \<Rightarrow> tasks)"

definition queued_of :: "manager \<Rightarrow> int \<Rightarrow> int" where
  "queued_of m uid = (case queued_tasks m uid of None \<Rightarrow> 0 | Some q \<Rightarrow> q)"

text \<open>\<open>get_user_active_downloads\<close>.\<close>

definition get_user_active_downloads :: "manager \<Rightarrow> int \<Rightarrow> int" where
  "get_user_active_downloads m uid = int (fcard (active_of m uid)) + queued_of m uid"

text \<open>
  \<open>add_download\<close>: the result is the returned flag and the manager afterwards. The two
  refusals return \<open>False\<close> before anything is written.
\<close>

definition add_download :: "int \<Rightarrow> ustr \<Rightarrow> ustr \<Rightarrow> manager \<Rightarrow> bool \<times> manager" where
  "add_download uid link fmt m =
     (if fmt \<notin> {VIDEO, AUDIO} then (False, m)
      else
        let active = int (fcard (active_of m uid));
            queued = queued_of m uid
        in if active + queued \<ge> max_concurrent m then (False, m)
           else
             let tid = task_counter m + 1
             in (True,
                 m\<lparr>task_counter := tid,
                   queued_tasks := (queued_tasks m)(uid \<mapsto> queued + 1),
                   queue := queue m @ [Some (tid, uid, link, fmt)]\<rparr>))"

text \<open>\<open>_mark_task_started\<close>.\<close>

definition mark_task_started :: "int \<Rightarrow> int \<Rightarrow> manager \<Rightarrow> manager" where
  "mark_task_started uid tid m =
     (let queued = queued_of m uid - 1;
          qt = (if queued > 0 then (queued_tasks m)(uid \<mapsto> queued)
                else (queued_tasks m)(uid := None));
          tasks = active_of m uid
      in m\<lparr>queued_tasks := qt,
           active_tasks := (active_tasks m)(uid \<mapsto> finsert tid tasks),
           processing := processing m + 1\<rparr>)"

text \<open>\<open>_mark_task_finished\<close>.\<close>

definition mark_task_finished :: "int \<Rightarrow> int \<Rightarrow> manager \<Rightarrow> manager" where
  "mark_task_finished uid tid m =
     (let remaining =
            (case active_tasks m uid of
               None \<Rightarrow> active_tasks m
             | Some tasks \<Rightarrow>
                 if tasks \<noteq> {||} \<and> tid |\<in>| tasks then
                   (if tasks |-| {|tid|} = {||} then (active_tasks m)(uid := None)
                    else (active_tasks m)(uid \<mapsto> tasks |-| {|tid|}))
                 else active_tasks m)
      in m\<lparr>active_tasks := remaining,
           processing := (if processing m > 0 then processing m - 1 else processing m)\<rparr>)"

text \<open>
  Any sequence of calls of the three operations, for the properties that hold whatever
  the callers do.
\<close>

datatype call = CallAdd int ustr ustr | CallStarted int int | CallFinished int int

fun apply_call :: "call \<Rightarrow> manager \<Rightarrow> manager" where
  "apply_call (CallAdd uid link fmt) m = snd (add_download uid link fmt m)"
| "apply_call (CallStarted uid tid) m = mark_task_started uid tid m"
| "apply_call (CallFinished uid tid) m = mark_task_finished uid tid m"

fun run_calls :: "call list \<Rightarrow> manager \<Rightarrow> manager" where
  "run_calls [] m = m"
| "run_calls (c # cs) m = run_calls cs (apply_call c m)"

subsection \<open>The worker pool\<close>

text \<open>
  \<open>_worker_loop\<close>: a worker takes the head of the queue, stops on the sentinel, and
  otherwise calls \<open>_mark_task_started\<close>, runs the task and calls \<open>_mark_task_finished\<close>
  in its \<open>finally\<close>. Between \<open>queue.get()\<close> and the lock of \<open>_mark_task_started\<close> other
  coroutines may run, so a worker holding an entry it has not yet started is a state of
  its own. \<open>_handle_download\<close> does not touch the manager.
\<close>

datatype wstate = Idle | Fetched item | Running item | Stopped

record system =
  mgr :: manager
  workers :: "wstate list"

definition init :: "int \<Rightarrow> system" where
  "init mc = \<lparr>mgr = new_manager mc, workers = replicate (nat (max 1 mc)) Idle\<rparr>"

datatype event = Add int ustr ustr | Get nat | Start nat | Finish nat | Stop

text \<open>One step of the system; \<open>None\<close> when the event cannot happen in the state.\<close>

fun step :: "event \<Rightarrow> system \<Rightarrow> system option" where
  "step (Add uid link fmt) s = Some (s\<lparr>mgr := snd (add_download uid link fmt (mgr s))\<rparr>)"
| "step (Get w) s =
     (if w < length (workers s) \<and> workers s ! w = Idle then
        (case queue (mgr s) of
           [] \<Rightarrow> None
         | None # q \<Rightarrow>
             Some (s\<lparr>mgr := (mgr s)\<lparr>queue := q\<rparr>, workers := (workers s)[w := Stopped]\<rparr>)
         | Some it # q \<Rightarrow>
             Some (s\<lparr>mgr := (mgr s)\<lparr>queue := q\<rparr>, workers := (workers s)[w := Fetched it]\<rparr>))
      else None)"
| "step (Start w) s =
     (if w < length (workers s) then
        (case workers s ! w of
           Fetched (tid, uid, link, fmt) \<Rightarrow>
             Some (s\<lparr>mgr := mark_task_started uid tid (mgr s),
                     workers := (workers s)[w := Running (tid, uid, link, fmt)]\<rparr>)
         | _ \<Rightarrow> None)
      else None)"
| "step (Finish w) s =
     (if w < length (workers s) then
        (case workers s ! w of
           Running (tid, uid, link, fmt) \<Rightarrow>
             Some (s\<lparr>mgr := mark_task_finished uid tid (mgr s),
                     workers := (workers s)[w := Idle]\<rparr>)
         | _ \<Rightarrow> None)
      else None)"
| "step Stop s =
     Some (s\<lparr>mgr := (mgr s)\<lparr>queue := queue (mgr s) @ replicate (length (workers s)) None\<rparr>\<rparr>)"

fun exec :: "event list \<Rightarrow> system \<Rightarrow> system option" where
  "exec [] s = Some s"
| "exec (e # es) s = (case step e s of None \<Rightarrow> None | Some s' \<Rightarrow> exec es s')"

section \<open>Auxiliary notions for the quota proofs\<close>

definition item_user :: "item \<Rightarrow> int" where
  "item_user it = fst (snd it)"

definition queued_for :: "int \<Rightarrow> item option \<Rightarrow> bool" where
  "queued_for uid e = (case e of None \<Rightarrow> False | Some it \<Rightarrow> item_user it = uid)"

definition fetched_for :: "int \<Rightarrow> wstate \<Rightarrow> bool" where
  "fetched_for uid w = (case w of Fetched it \<Rightarrow> item_user it = uid | _ \<Rightarrow> False)"

definition pending_for :: "int \<Rightarrow> system \<Rightarrow> nat" where
  "pending_for uid s =
     length (filter (queued_for uid) (queue (mgr s))) + length (filter (fetched_for uid) (workers s))"

definition quota_inv :: "system \<Rightarrow> bool" where
  "quota_inv s =
     (\<forall>uid. int (pending_for uid s) \<le> queued_of (mgr s) uid \<and>
            queued_of (mgr s) uid + int (fcard (active_of (mgr s) uid)) \<le> max_concurrent (mgr s))"

definition counters_ok :: "manager \<Rightarrow> bool" where
  "counters_ok m = (0 \<le> processing m \<and> (\<forall>u q. queued_tasks m u = Some q \<longrightarrow> 0 < q))"

definition demo_link :: ustr where
  "demo_link = ascii ''https://youtu.be/x''"

definition demo_trace :: "event list" where
  "demo_trace = [Add 7 demo_link VIDEO, Add 7 demo_link AUDIO, Get 0, Start 0,
      Add 7 demo_link VIDEO, Add 7 demo_link VIDEO, Get 1, Finish 0]"

definition full_slot :: manager where
  "full_slot = mark_task_started 7 1 (snd (add_download 7 demo_link VIDEO (new_manager 1)))"

section \<open>managers.py: the attempt planner and the error classifier\<close>

text \<open>
  \<open>re.search(r"/video/(?P<video_id>\d+)", url)\<close>: the leftmost position where the literal
  segment is followed by at least one digit, and the longest run of digits there.
\<close>

definition video_seg :: ustr where
  "video_seg = ascii ''/video/''"

fun search_video_id :: "(nat \<Rightarrow> bool) \<Rightarrow> ustr \<Rightarrow> ustr option" where
  "search_video_id digit [] = None"
| "search_video_id digit (c # cs) =
     (if prefix video_seg (c # cs)
         \<and> takeWhile digit (drop (length video_seg) (c # cs)) \<noteq> []
      then Some (takeWhile digit (drop (length video_seg) (c # cs)))
      else search_video_id digit cs)"

definition tiktok_root :: ustr where
  "tiktok_root = ascii ''https://www.tiktok.com/@_/video/''"

text \<open>\<open>_canonicalize_tiktok_video_url\<close>.\<close>

definition canonicalize_tiktok_video_url :: "(nat \<Rightarrow> bool) \<Rightarrow> ustr \<Rightarrow> ustr option" where
  "canonicalize_tiktok_video_url digit link =
     (case search_video_id digit link of
        None \<Rightarrow> None
      | Some video_id \<Rightarrow> Some (tiktok_root @ video_id))"

text \<open>
  \<open>_build_tiktok_attempt_plan\<close>: the tuple of four candidates, and the loop over it with
  its \<open>seen\<close> set and its \<open>attempts\<close> list. A candidate whose URL is \<open>None\<close> or empty is
  skipped (\<open>if not attempt_url\<close>).
\<close>

definition candidate_order :: "(nat \<Rightarrow> bool) \<Rightarrow> ustr \<Rightarrow> (ustr option \<times> bool) list" where
  "candidate_order digit link =
     (let canonical = canonicalize_tiktok_video_url digit link
      in [(Some link, False), (canonical, False), (Some link, True), (canonical, True)])"

fun plan_loop ::
  "(ustr option \<times> bool) list \<Rightarrow> (ustr \<times> bool) set \<Rightarrow> (ustr \<times> bool) list \<Rightarrow> (ustr \<times> bool) list"
where
  "plan_loop [] seen attempts = attempts"
| "plan_loop ((None, app_api) # rest) seen attempts = plan_loop rest seen attempts"
| "plan_loop ((Some attempt_url, app_api) # rest) seen attempts =
     (if attempt_url = [] then plan_loop rest seen attempts
      else if (attempt_url, app_api) \<in> seen then plan_loop rest seen attempts
      else plan_loop rest (insert (attempt_url, app_api) seen)
             (attempts @ [(attempt_url, app_api)]))"

definition build_tiktok_attempt_plan :: "(nat \<Rightarrow> bool) \<Rightarrow> ustr \<Rightarrow> (ustr \<times> bool) list" where
  "build_tiktok_attempt_plan digit link = plan_loop (candidate_order digit link) {} []"

text \<open>\<open>_is_tiktok_extraction_error\<close>.\<close>

definition transient_tokens :: "ustr list" where
  "transient_tokens =
     [ascii ''unable to extract webpage video data'', ascii ''unable to download webpage'',
      ascii ''video not available'', ascii ''extractorerror'']"

definition is_tiktok_extraction_error :: "(ustr \<Rightarrow> ustr) \<Rightarrow> exn \<Rightarrow> bool" where
  "is_tiktok_extraction_error lower error =
     (let msg = lower (str_exn error)
      in if \<not> str_in (ascii ''tiktok'') msg then False
         else list_ex (\<lambda>token. str_in token msg) transient_tokens)"

subsection \<open>The planner and the classifier in the specification's words\<close>

text \<open>
  An occurrence of the pattern in a URL: the segment \<open>/video/\<close> after \<open>pre\<close>, then the
  non-empty run \<open>ds\<close> of digits, which ends where \<open>post\<close> begins.
\<close>

definition video_match ::
  "(nat \<Rightarrow> bool) \<Rightarrow> ustr \<Rightarrow> ustr \<Rightarrow> ustr \<Rightarrow> ustr \<Rightarrow> bool"
where
  "video_match digit link pre ds post =
     (link = pre @ video_seg @ ds @ post \<and> ds \<noteq> [] \<and> list_all digit ds
      \<and> (case post of [] \<Rightarrow> True | d # _ \<Rightarrow> \<not> digit d))"

text \<open>The first occurrence: no occurrence starts further left.\<close>

definition first_video_match ::
  "(nat \<Rightarrow> bool) \<Rightarrow> ustr \<Rightarrow> ustr \<Rightarrow> ustr \<Rightarrow> ustr \<Rightarrow> bool"
where
  "first_video_match digit link pre ds post =
     (video_match digit link pre ds post
      \<and> (\<forall>pre' ds' post'. video_match digit link pre' ds' post'
             \<longrightarrow> length pre \<le> length pre'))"

definition has_video_segment :: "(nat \<Rightarrow> bool) \<Rightarrow> ustr \<Rightarrow> bool" where
  "has_video_segment digit link =
     (\<exists>pre d post. link = pre @ video_seg @ d # post \<and> digit d)"

text \<open>Duplicates removed, the first occurrence of each element kept in its place.\<close>

fun dedup_first :: "'a list \<Rightarrow> 'a list" where
  "dedup_first [] = []"
| "dedup_first (x # xs) = x # filter (\<lambda>y. y \<noteq> x) (dedup_first xs)"

text \<open>The candidates that carry a URL, in the priority order.\<close>

fun usable :: "(ustr option \<times> bool) list \<Rightarrow> (ustr \<times> bool) list" where
  "usable [] = []"
| "usable ((None, app_api) # rest) = usable rest"
| "usable ((Some u, app_api) # rest) = (if u = [] then usable rest else (u, app_api) # usable rest)"

text \<open>
  A text names the platform, or holds a transient phrase, whatever the letter case:
  the name or the phrase occurs in the text as \<open>str.lower()\<close> gives it.
\<close>

definition occurs_in :: "ustr \<Rightarrow> ustr \<Rightarrow> bool" where
  "occurs_in phrase text = (\<exists>pre post. text = pre @ phrase @ post)"

definition names_tiktok :: "(ustr \<Rightarrow> ustr) \<Rightarrow> ustr \<Rightarrow> bool" where
  "names_tiktok lower text = occurs_in (ascii ''tiktok'') (lower text)"

definition has_transient_phrase :: "(ustr \<Rightarrow> ustr) \<Rightarrow> ustr \<Rightarrow> bool" where
  "has_transient_phrase lower text =
     (occurs_in (ascii ''unable to extract webpage video data'') (lower text)
      \<or> occurs_in (ascii ''unable to download webpage'') (lower text)
      \<or> occurs_in (ascii ''video not available'') (lower text)
      \<or> occurs_in (ascii ''extractorerror'') (lower text))"

text \<open>Two links for the concrete checks: one with a video id, one without.\<close>

definition demo_tiktok :: ustr where
  "demo_tiktok = ascii ''https://www.tiktok.com/@user/video/12345?x=1''"

definition demo_canonical :: ustr where
  "demo_canonical = ascii ''https://www.tiktok.com/@_/video/12345''"

definition demo_short :: ustr where
  "demo_short = ascii ''https://vm.tiktok.com/ZMabc/''"

text \<open>
  A link whose video id is written with the fullwidth digits \<open>U+FF11 U+FF12 U+FF13\<close>,
  and a failure text that spells the platform's name with the Kelvin sign \<open>U+212A\<close>.
\<close>

definition demo_fullwidth :: ustr where
  "demo_fullwidth = ascii ''https://www.tiktok.com/@user/video/'' @ [65297, 65298, 65299]"

definition demo_kelvin :: ustr where
  "demo_kelvin = ascii ''ERROR: [Ti'' @ [8490] @ ascii ''Tok] 123: Video not available''"

section \<open>utils.py and managers.py: the execution of one task\<close>

text \<open>
  What lies outside the program during one execution of a task: the two library
  functions \<open>str.lower()\<close> and \<open>\d\<close> (\<open>py_lower\<close>, \<open>py_digit\<close>), the file
  system, the extractor (yt-dlp), the HTTP client and the Telegram client. Each other
  field is the outcome of one call: a raised exception, or the value returned.
\<close>

record dirent =
  d_name :: ustr
  d_is_file :: bool
  d_mtime :: real

record env =
  py_lower :: "ustr \<Rightarrow> ustr"
  py_digit :: "nat \<Rightarrow> bool"
  dirs0 :: "ustr set"
  mkdtemp :: "exn + ustr"
  disk_ok :: bool
  announce :: "exn option"
  direct_re :: "ustr \<Rightarrow> bool"
  normalize_url :: "ustr \<Rightarrow> ustr option"
  ytdl :: "ustr \<Rightarrow> bool \<Rightarrow> bool \<Rightarrow> exn + dirent list"
  direct_name :: ustr
  fetch_file :: "ustr \<Rightarrow> exn option"
  http_get :: "ustr \<Rightarrow> exn + nat \<times> ustr"
  scrape :: "ustr \<Rightarrow> ustr option"
  clock :: int
  path_exists :: "ustr \<Rightarrow> bool"
  getsize :: "ustr \<Rightarrow> nat option"
  send_media :: "exn option"
  send_document :: "exn option"
  notify_error :: "exn option"
  rmtree :: "ustr \<Rightarrow> exn option"

text \<open>
  \<open>dirs0\<close>: the directories that exist before the task starts. \<open>mkdtemp\<close>:
  \<open>create_temp_dir()\<close>. \<open>disk_ok\<close>: \<open>has_enough_disk_space\<close>, which never raises.
  \<open>announce\<close>: the status message sent when the download starts. \<open>direct_re\<close>:
  \<open>DIRECT_FILE_RE.search\<close>. \<open>normalize_url\<close>: \<open>_normalize_tiktok_url\<close>, which catches
  every exception and then returns \<open>None\<close>. \<open>ytdl link is_audio app_api\<close>:
  \<open>YoutubeDL(options).extract_info(link, download=True)\<close>, which raises or leaves the
  workspace with the listed entries. \<open>direct_name\<close>: the sanitized file name of the
  direct branch. \<open>fetch_file\<close>: \<open>download_file_async\<close>. \<open>http_get\<close>: the status and
  text of the page, or the exception of the request. \<open>scrape\<close>:
  \<open>extract_tiktok_media_url_from_html\<close>. \<open>clock\<close>: \<open>int(time.time())\<close>.
  \<open>getsize\<close>: \<open>os.path.getsize\<close>, \<open>None\<close> for an \<open>OSError\<close>. \<open>send_media\<close> and
  \<open>send_document\<close>: the two Telegram uploads of \<open>_send_file\<close>. \<open>notify_error\<close>: the
  message sent by \<open>_handle_download_error\<close>. \<open>rmtree\<close>: \<open>shutil.rmtree\<close>.
\<close>

text \<open>The calls to the collaborators that an execution makes, in their order.\<close>

datatype action =
    CreateTempDir | Announce | Extract ustr bool | FetchFile ustr | HttpGet ustr
  | SendMedia ustr | SendDocument ustr | Notify user_message | RemoveTree ustr

text \<open>\<open>detect_platform\<close>.\<close>

definition detect_platform ::
  "(ustr \<Rightarrow> ustr) \<Rightarrow> (ustr \<Rightarrow> bool) \<Rightarrow> ustr \<Rightarrow> Platform"
where
  "detect_platform lower direct_file_re link =
     (if link = [] then UNKNOWN
      else
        let low = lower link
        in if str_in (ascii ''youtube.com'') low \<or> str_in (ascii ''youtu.be'') low then YOUTUBE
           else if str_in (ascii ''tiktok.com'') low then TIKTOK
           else if str_in (ascii ''instagram.com'') low then INSTAGRAM
           else if str_in (ascii ''facebook.com'') low then FACEBOOK
           else if str_in (ascii ''twitter.com'') low \<or> str_in (ascii ''x.com'') low then TWITTER
           else if str_in (ascii ''vk.com'') low \<or> str_in (ascii ''m.vkvideo.ru'') low then VK
           else if str_in (ascii ''reddit.com'') low then REDDIT
           else if str_in (ascii ''pinterest.com'') low \<or> str_in (ascii ''pin.it'') low
             then PINTEREST
           else if str_in (ascii ''dailymotion.com'') low then DAILYMOTION
           else if str_in (ascii ''vimeo.com'') low then VIMEO
           else if str_in (ascii ''soundcloud.com'') low then SOUNDCLOUD
           else if direct_file_re link then DIRECT
           else UNKNOWN)"

text \<open>\<open>get_file_size_mb\<close>; the quotient by a power of two is taken exactly.\<close>

definition get_file_size_mb :: "env \<Rightarrow> ustr \<Rightarrow> real" where
  "get_file_size_mb ev filepath =
     (case getsize ev filepath of None \<Rightarrow> 0 | Some n \<Rightarrow> real n / (1024 * 1024))"

text \<open>
  \<open>cleanup_temp_dir\<close> on the set of existing directories: an exception of \<open>rmtree\<close> is
  caught and dropped, and the directory stays.
\<close>

definition cleanup_temp_dir :: "env \<Rightarrow> ustr set \<Rightarrow> ustr \<Rightarrow> action list \<times> ustr set" where
  "cleanup_temp_dir ev dirs temp_dir =
     (if temp_dir \<noteq> [] \<and> temp_dir \<in> dirs then
        (case rmtree ev temp_dir of
           None \<Rightarrow> ([RemoveTree temp_dir], dirs - {temp_dir})
         | Some error \<Rightarrow> ([RemoveTree temp_dir], dirs))
      else ([], dirs))"

text \<open>\<open>str(Path(temp_dir) / name)\<close> and \<open>Path.suffix\<close> of a file name.\<close>

definition path_join :: "ustr \<Rightarrow> ustr \<Rightarrow> ustr" where
  "path_join temp_dir nm = temp_dir @ [47] @ nm"

definition path_suffix :: "ustr \<Rightarrow> ustr" where
  "path_suffix nm =
     (let after = rev (takeWhile (\<lambda>c. c \<noteq> 46) (rev nm))
      in if 46 \<notin> set nm then []
         else if after = [] then []
         else if length after + 1 = length nm then []
         else 46 # after)"

text \<open>
  \<open>max(files, key=lambda item: item.stat().st_mtime)\<close>: the first entry of the greatest
  modification time.
\<close>

fun max_by_mtime :: "dirent \<Rightarrow> dirent list \<Rightarrow> dirent" where
  "max_by_mtime best [] = best"
| "max_by_mtime best (entry # rest) =
     max_by_mtime (if d_mtime entry > d_mtime best then entry else best) rest"

text \<open>\<open>_find_latest_file\<close> on the listing of the workspace.\<close>

definition find_latest_file ::
  "(ustr \<Rightarrow> ustr) \<Rightarrow> ustr \<Rightarrow> dirent list \<Rightarrow> ustr list \<Rightarrow> ustr option"
where
  "find_latest_file lower temp_dir entries allowed_ext =
     (let files =
            filter
              (\<lambda>entry. d_is_file entry
                 \<and> \<not> (allowed_ext \<noteq> []
                       \<and> lower (path_suffix (d_name entry)) \<notin> set allowed_ext))
              entries;
          files = (if files = [] then filter d_is_file entries else files)
      in case files of
           [] \<Rightarrow> None
         | f # fs \<Rightarrow> Some (path_join temp_dir (d_name (max_by_mtime f fs))))"

text \<open>\<open>_download_with_ytdlp\<close>.\<close>

definition download_with_ytdlp ::
  "env \<Rightarrow> ustr \<Rightarrow> ustr \<Rightarrow> bool \<Rightarrow> ustr list \<Rightarrow> bool \<Rightarrow> exn + ustr option"
where
  "download_with_ytdlp ev link temp_dir is_audio allowed_ext use_tiktok_app_api =
     (case ytdl ev link is_audio use_tiktok_app_api of
        Inl error \<Rightarrow> Inl error
      | Inr entries \<Rightarrow> Inr (find_latest_file (py_lower ev) temp_dir entries allowed_ext))"

text \<open>
  \<open>_download_tiktok_direct_from_html\<close>: every exception inside is caught and the result
  is \<open>None\<close> then.
\<close>

definition download_tiktok_direct_from_html ::
  "env \<Rightarrow> ustr \<Rightarrow> ustr \<Rightarrow> action list \<times> ustr option"
where
  "download_tiktok_direct_from_html ev link temp_dir =
     (case http_get ev link of
        Inl error \<Rightarrow> ([HttpGet link], None)
      | Inr (code, html_content) \<Rightarrow>
          if code \<noteq> 200 then ([HttpGet link], None)
          else
            (case scrape ev html_content of
               None \<Rightarrow> ([HttpGet link], None)
             | Some media_url \<Rightarrow>
                 if media_url = [] then ([HttpGet link], None)
                 else
                   let filepath =
                         path_join temp_dir
                           (ascii ''tiktok_'' @ str_int (clock ev) @ ascii ''.mp4'')
                   in (case fetch_file ev media_url of
                         Some error \<Rightarrow> ([HttpGet link, FetchFile media_url], None)
                       | None \<Rightarrow>
                           if path_exists ev filepath
                           then ([HttpGet link, FetchFile media_url], Some filepath)
                           else ([HttpGet link, FetchFile media_url], None))))"

text \<open>
  The loop of \<open>_download_content\<close> over the attempt plan. It ends by returning what the
  extraction returned, by re-raising an error that is not recoverable, or by running
  out of candidates with the last error recorded.
\<close>

datatype loop_end = Returned "ustr option" | Raised exn | Exhausted "exn option"

fun try_attempts ::
  "env \<Rightarrow> ustr \<Rightarrow> bool \<Rightarrow> ustr list \<Rightarrow> (ustr \<times> bool) list \<Rightarrow> exn option
     \<Rightarrow> action list \<times> loop_end"
where
  "try_attempts ev temp_dir is_audio allowed_ext [] last_error = ([], Exhausted last_error)"
| "try_attempts ev temp_dir is_audio allowed_ext ((attempt_url, use_tiktok_app_api) # rest)
       last_error =
     (case download_with_ytdlp ev attempt_url temp_dir is_audio allowed_ext use_tiktok_app_api of
        Inr result \<Rightarrow> ([Extract attempt_url use_tiktok_app_api], Returned result)
      | Inl error \<Rightarrow>
          if \<not> is_tiktok_extraction_error (py_lower ev) error
          then ([Extract attempt_url use_tiktok_app_api], Raised error)
          else
            let (acts, fin) = try_attempts ev temp_dir is_audio allowed_ext rest (Some error)
            in (Extract attempt_url use_tiktok_app_api # acts, fin))"

text \<open>
  \<open>_download_content\<close>: the actions made and the file path returned (\<open>None\<close> included)
  or the exception raised. The edit of the status message at its start cannot fail the
  call and is left out.
\<close>

definition download_content ::
  "env \<Rightarrow> ustr \<Rightarrow> ustr \<Rightarrow> ustr \<Rightarrow> action list \<times> (exn + ustr option)"
where
  "download_content ev link temp_dir fmt =
     (let platform = detect_platform (py_lower ev) (direct_re ev) link;
          is_audio = (fmt = AUDIO);
          allowed_ext = (if is_audio then AUDIO_EXTENSIONS else VIDEO_EXTENSIONS)
      in if platform = DIRECT then
           (case fetch_file ev link of
              Some error \<Rightarrow> ([FetchFile link], Inl error)
            | None \<Rightarrow> ([FetchFile link], Inr (Some (path_join temp_dir (direct_name ev)))))
         else
           let download_url =
                 (if platform = TIKTOK then
                    (case normalize_url ev link of
                       None \<Rightarrow> link
                     | Some normalized \<Rightarrow> if normalized = [] then link else normalized)
                  else link)
           in if platform \<noteq> TIKTOK then
                ([Extract download_url False],
                 download_with_ytdlp ev download_url temp_dir is_audio allowed_ext False)
              else
                let (acts, fin) =
                      try_attempts ev temp_dir is_audio allowed_ext
                        (build_tiktok_attempt_plan (py_digit ev) download_url) None
                in (case fin of
                      Returned result \<Rightarrow> (acts, Inr result)
                    | Raised error \<Rightarrow> (acts, Inl error)
                    | Exhausted last_error \<Rightarrow>
                        let (extra, direct_file) =
                              (if \<not> is_audio
                               then download_tiktok_direct_from_html ev download_url temp_dir
                               else ([], None))
                        in if direct_file \<noteq> None \<and> direct_file \<noteq> Some []
                           then (acts @ extra, Inr direct_file)
                           else (case last_error of
                                   Some error \<Rightarrow> (acts @ extra, Inl error)
                                 | None \<Rightarrow> (acts @ extra, Inr None))))"

text \<open>\<open>_send_file\<close>: the upload by kind, and the upload as a document when that fails.\<close>

definition send_file :: "env \<Rightarrow> ustr \<Rightarrow> action list \<times> exn option" where
  "send_file ev filepath =
     (case send_media ev of
        None \<Rightarrow> ([SendMedia filepath], None)
      | Some error \<Rightarrow> ([SendMedia filepath, SendDocument filepath], send_document ev))"

text \<open>The three messages that \<open>_handle_download\<close> raises itself.\<close>

definition no_space_msg :: ustr where
  "no_space_msg =
     [1053, 1077, 1076, 1086, 1089, 1090, 1072, 1090, 1086, 1095, 1085, 1086, 32, 1084, 1077,
      1089, 1090, 1072, 32, 1085, 1072, 32, 1076, 1080, 1089, 1082, 1077, 46]"

definition not_found_msg :: ustr where
  "not_found_msg =
     [1060, 1072, 1081, 1083, 32, 1085, 1077, 32, 1085, 1072, 1081, 1076, 1077, 1085, 32,
      1087, 1086, 1089, 1083, 1077, 32, 1079, 1072, 1075, 1088, 1091, 1079, 1082, 1080, 46]"

definition too_big_msg :: "int \<Rightarrow> ustr" where
  "too_big_msg max_file_size_mb =
     [1060, 1072, 1081, 1083, 32, 1073, 1086, 1083, 1100, 1096, 1077, 32, 1083, 1080, 1084,
      1080, 1090, 1072, 32] @ ascii ''Telegram ('' @ str_int max_file_size_mb
     @ [32, 1052, 1041, 41, 46]"

text \<open>
  The text of the size gate as \<open>str.lower()\<close> gives it: the four capitals lowered, the
  digits of the ceiling as they are.
\<close>

definition too_big_lower :: "int \<Rightarrow> ustr" where
  "too_big_lower max_file_size_mb =
     [1092, 1072, 1081, 1083, 32, 1073, 1086, 1083, 1100, 1096, 1077, 32, 1083, 1080, 1084,
      1080, 1090, 1072, 32] @ ascii ''telegram ('' @ str_int max_file_size_mb
     @ [32, 1084, 1073, 41, 46]"

text \<open>
  The \<open>try\<close> block of \<open>_handle_download\<close>: the workspace if one was created, the status
  the task reached, the actions made, and the exception that ended the block if any.
  \<open>MAX_FILE_SIZE_MB\<close> is read from the environment of the process and is a parameter.
\<close>

definition try_block ::
  "env \<Rightarrow> int \<Rightarrow> ustr \<Rightarrow> ustr \<Rightarrow> ustr option \<times> DownloadStatus \<times> action list \<times> exn option"
where
  "try_block ev max_file_size_mb link fmt =
     (case mkdtemp ev of
        Inl error \<Rightarrow> (None, QUEUED, [CreateTempDir], Some error)
      | Inr temp_dir \<Rightarrow>
          if \<not> disk_ok ev
          then (Some temp_dir, QUEUED, [CreateTempDir], Some (Exn no_space_msg))
          else
            (case announce ev of
               Some error \<Rightarrow> (Some temp_dir, QUEUED, [CreateTempDir, Announce], Some error)
             | None \<Rightarrow>
                 let (acts, got) = download_content ev link temp_dir fmt;
                     done = [CreateTempDir, Announce] @ acts
                 in (case got of
                       Inl error \<Rightarrow> (Some temp_dir, DOWNLOADING, done, Some error)
                     | Inr None \<Rightarrow>
                         (Some temp_dir, DOWNLOADING, done, Some (Exn not_found_msg))
                     | Inr (Some filepath) \<Rightarrow>
                         if filepath = [] \<or> \<not> path_exists ev filepath
                         then (Some temp_dir, DOWNLOADING, done, Some (Exn not_found_msg))
                         else if get_file_size_mb ev filepath > real_of_int max_file_size_mb
                         then (Some temp_dir, DOWNLOADING, done,
                               Some (Exn (too_big_msg max_file_size_mb)))
                         else
                           let (sent, failure) = send_file ev filepath
                           in (case failure of
                                 Some error \<Rightarrow> (Some temp_dir, SENDING, done @ sent, Some error)
                               | None \<Rightarrow> (Some temp_dir, COMPLETED, done @ sent, None)))))"

text \<open>
  \<open>_handle_download\<close>: the task as it ends, the actions in order, the directories that
  exist when it returns, and the exception that leaves it (only \<open>_handle_download_error\<close>
  can raise one, and the \<open>finally\<close> clause runs before it propagates).
\<close>

record outcome =
  o_task :: DownloadTask
  o_actions :: "action list"
  o_dirs :: "ustr set"
  o_raised :: "exn option"

definition handle_download ::
  "env \<Rightarrow> int \<Rightarrow> int \<Rightarrow> int \<Rightarrow> ustr \<Rightarrow> ustr \<Rightarrow> outcome"
where
  "handle_download ev max_file_size_mb tid uid link fmt =
     (let task = \<lparr>task_id = tid, user_id = uid, url = link, mode = fmt, status = QUEUED,
                  error_message = None\<rparr>;
          (temp_dir, reached, acts, failure) = try_block ev max_file_size_mb link fmt;
          dirs = (case temp_dir of None \<Rightarrow> dirs0 ev | Some d \<Rightarrow> insert d (dirs0 ev));
          (task, acts, raised) =
            (case failure of
               None \<Rightarrow> (task\<lparr>status := reached\<rparr>, acts, None)
             | Some error \<Rightarrow>
                 (task\<lparr>status := FAILED, error_message := Some (str_exn error)\<rparr>,
                  acts @ [Notify (to_user_message (py_lower ev) error)], notify_error ev));
          (cleanup, dirs) =
            (case temp_dir of
               None \<Rightarrow> ([], dirs)
             | Some d \<Rightarrow> if d \<noteq> [] then cleanup_temp_dir ev dirs d else ([], dirs))
      in \<lparr>o_task = task, o_actions = acts @ cleanup, o_dirs = dirs, o_raised = raised\<rparr>)"

section \<open>Auxiliary notions for the execution proofs\<close>

text \<open>An action that delivers a file to the user.\<close>

fun is_send :: "action \<Rightarrow> bool" where
  "is_send (SendMedia f) = True"
| "is_send (SendDocument f) = True"
| "is_send other = False"

text \<open>
  The files of a workspace listing, those whose extension is allowed, and what it means
  for a returned path to be a most recently modified file of a list.
\<close>

definition workspace_files :: "dirent list \<Rightarrow> dirent list" where
  "workspace_files entries = filter d_is_file entries"

definition matching_files ::
  "(ustr \<Rightarrow> ustr) \<Rightarrow> ustr list \<Rightarrow> dirent list \<Rightarrow> dirent list"
where
  "matching_files lower allowed_ext entries =
     filter (\<lambda>entry. d_is_file entry
               \<and> lower (path_suffix (d_name entry)) \<in> set allowed_ext) entries"

definition is_latest_of :: "dirent list \<Rightarrow> ustr \<Rightarrow> ustr option \<Rightarrow> bool" where
  "is_latest_of files temp_dir found =
     (\<exists>entry \<in> set files.
        found = Some (path_join temp_dir (d_name entry))
        \<and> (\<forall>other \<in> set files. d_mtime other \<le> d_mtime entry))"

text \<open>
  The URL that the flaky-platform branch downloads from, the outcome of one candidate,
  and a candidate whose failure the classifier marks recoverable.
\<close>

definition tiktok_download_url :: "env \<Rightarrow> ustr \<Rightarrow> ustr" where
  "tiktok_download_url ev link =
     (case normalize_url ev link of
        None \<Rightarrow> link
      | Some normalized \<Rightarrow> if normalized = [] then link else normalized)"

definition allowed_for :: "ustr \<Rightarrow> ustr list" where
  "allowed_for fmt = (if fmt = AUDIO then AUDIO_EXTENSIONS else VIDEO_EXTENSIONS)"

definition attempt :: "env \<Rightarrow> ustr \<Rightarrow> ustr \<Rightarrow> ustr \<times> bool \<Rightarrow> exn + ustr option" where
  "attempt ev temp_dir fmt c =
     download_with_ytdlp ev (fst c) temp_dir (fmt = AUDIO) (allowed_for fmt) (snd c)"

definition fails_recoverably :: "env \<Rightarrow> ustr \<Rightarrow> ustr \<Rightarrow> ustr \<times> bool \<Rightarrow> bool" where
  "fails_recoverably ev temp_dir fmt c =
     (case attempt ev temp_dir fmt c of
        Inl error \<Rightarrow> is_tiktok_extraction_error (py_lower ev) error
      | Inr result \<Rightarrow> False)"

definition extract_of :: "ustr \<times> bool \<Rightarrow> action" where
  "extract_of c = Extract (fst c) (snd c)"

text \<open>The error of a candidate that failed, for the last one of a list.\<close>

definition last_error_of :: "env \<Rightarrow> ustr \<Rightarrow> ustr \<Rightarrow> (ustr \<times> bool) list \<Rightarrow> exn option" where
  "last_error_of ev temp_dir fmt cs =
     (case cs of
        [] \<Rightarrow> None
      | _ \<Rightarrow> (case attempt ev temp_dir fmt (last cs) of
                 Inl error \<Rightarrow> Some error
               | Inr result \<Rightarrow> None))"

text \<open>
  The plan of a flaky-platform download, its candidates that fail recoverably before any
  other outcome, and the candidates from the first other outcome on.
\<close>

definition tiktok_plan :: "env \<Rightarrow> ustr \<Rightarrow> (ustr \<times> bool) list" where
  "tiktok_plan ev link = build_tiktok_attempt_plan (py_digit ev) (tiktok_download_url ev link)"

definition tried :: "env \<Rightarrow> ustr \<Rightarrow> ustr \<Rightarrow> ustr \<Rightarrow> (ustr \<times> bool) list" where
  "tried ev temp_dir fmt link =
     takeWhile (fails_recoverably ev temp_dir fmt) (tiktok_plan ev link)"

definition untried :: "env \<Rightarrow> ustr \<Rightarrow> ustr \<Rightarrow> ustr \<Rightarrow> (ustr \<times> bool) list" where
  "untried ev temp_dir fmt link =
     dropWhile (fails_recoverably ev temp_dir fmt) (tiktok_plan ev link)"

text \<open>
  The extraction whose result the download returns succeeded and left the workspace with
  the listed entries: the single extraction of a platform other than the flaky one, or
  the first candidate of the plan that does not fail recoverably.
\<close>

definition extraction_left :: "env \<Rightarrow> ustr \<Rightarrow> ustr \<Rightarrow> ustr \<Rightarrow> dirent list \<Rightarrow> bool" where
  "extraction_left ev temp_dir link fmt entries =
     (if detect_platform (py_lower ev) (direct_re ev) link = DIRECT then False
      else if detect_platform (py_lower ev) (direct_re ev) link = TIKTOK then
        (case untried ev temp_dir fmt link of
           [] \<Rightarrow> False
         | c # _ \<Rightarrow> ytdl ev (fst c) (fmt = AUDIO) (snd c) = Inr entries)
      else ytdl ev link (fmt = AUDIO) False = Inr entries)"

subsection \<open>Concrete executions\<close>

text \<open>
  An execution in which everything works: the extractor leaves one video of one mebibyte
  and one older leftover in the workspace.
\<close>

definition demo_dir :: ustr where
  "demo_dir = ascii ''/tmp/tgdl_k3''"

definition clip :: dirent where
  "clip = \<lparr>d_name = ascii ''clip_1.MP4'', d_is_file = True, d_mtime = 20\<rparr>"

definition leftover :: dirent where
  "leftover = \<lparr>d_name = ascii ''clip_1.part'', d_is_file = True, d_mtime = 30\<rparr>"

definition good_env :: env where
  "good_env =
     \<lparr>py_lower = demo_lower, py_digit = demo_digit,
      dirs0 = {}, mkdtemp = Inr demo_dir, disk_ok = True, announce = None,
      direct_re = (\<lambda>link. False), normalize_url = (\<lambda>link. None),
      ytdl = (\<lambda>link is_audio app_api. Inr [leftover, clip]),
      direct_name = ascii ''media'', fetch_file = (\<lambda>link. None),
      http_get = (\<lambda>link. Inr (200, [])), scrape = (\<lambda>page. None), clock = 0,
      path_exists = (\<lambda>p. True), getsize = (\<lambda>p. Some 1048576),
      send_media = None, send_document = None, notify_error = None,
      rmtree = (\<lambda>p. None)\<rparr>"

text \<open>The same with a file of 2049 mebibytes, one over the default ceiling of 2048.\<close>

definition big_env :: env where
  "big_env = good_env\<lparr>getsize := (\<lambda>p. Some 2148532224)\<rparr>"

text \<open>The same with an extractor that leaves the workspace empty.\<close>

definition empty_env :: env where
  "empty_env = good_env\<lparr>ytdl := (\<lambda>link is_audio app_api. Inr [])\<rparr>"

text \<open>The same with a removal of the workspace that fails.\<close>

definition stuck_env :: env where
  "stuck_env = good_env\<lparr>rmtree := (\<lambda>p. Some (Exn (ascii ''[Errno 13] Permission denied'')))\<rparr>"

text \<open>
  An extractor that fails recoverably on every candidate but the alternate-mode request
  for the canonical URL, one that fails recoverably on all four, and one whose first
  failure is not recoverable.
\<close>

definition transient :: exn where
  "transient = Exn (ascii ''ERROR: [TikTok] 12345: Unable to extract webpage video data'')"

definition fatal :: exn where
  "fatal = Exn (ascii ''ERROR: [TikTok] 12345: This video is DRM protected'')"

definition fourth_env :: env where
  "fourth_env =
     good_env\<lparr>ytdl := (\<lambda>link is_audio app_api.
        if link = demo_canonical \<and> app_api then Inr [clip] else Inl transient)\<rparr>"

definition outage_env :: env where
  "outage_env = good_env\<lparr>ytdl := (\<lambda>link is_audio app_api. Inl transient)\<rparr>"

definition fatal_env :: env where
  "fatal_env = good_env\<lparr>ytdl := (\<lambda>link is_audio app_api. Inl fatal)\<rparr>"

section \<open>Proofs: quota bookkeeping\<close>

subsection \<open>What each operation does to the fields\<close>

lemma add_download_fields:
  "max_concurrent (snd (add_download uid link fmt m)) = max_concurrent m"
  "active_tasks (snd (add_download uid link fmt m)) = active_tasks m"
  "processing (snd (add_download uid link fmt m)) = processing m"
  by (simp_all add: add_download_def Let_def)

lemma add_download_denied:
  "\<not> fst (add_download uid link fmt m) \<Longrightarrow> snd (add_download uid link fmt m) = m"
  by (simp add: add_download_def Let_def split: if_splits)

lemma add_download_allowed:
  assumes "fst (add_download uid link fmt m)"
  shows "queued_tasks (snd (add_download uid link fmt m)) = (queued_tasks m)(uid \<mapsto> queued_of m uid + 1)"
    and "queue (snd (add_download uid link fmt m)) = queue m @ [Some (task_counter m + 1, uid, link, fmt)]"
    and "task_counter (snd (add_download uid link fmt m)) = task_counter m + 1"
    and "int (fcard (active_of m uid)) + queued_of m uid < max_concurrent m"
    and "fmt = VIDEO \<or> fmt = AUDIO"
  using assms by (auto simp add: add_download_def Let_def split: if_splits)

lemma add_download_iff:
  "fst (add_download uid link fmt m) \<longleftrightarrow>
     (fmt = VIDEO \<or> fmt = AUDIO) \<and> int (fcard (active_of m uid)) + queued_of m uid < max_concurrent m"
  by (auto simp add: add_download_def Let_def)

lemma started_fields:
  "max_concurrent (mark_task_started uid tid m) = max_concurrent m"
  "queue (mark_task_started uid tid m) = queue m"
  "processing (mark_task_started uid tid m) = processing m + 1"
  "queued_of (mark_task_started uid tid m) u =
     (if u = uid then (if queued_of m uid - 1 > 0 then queued_of m uid - 1 else 0) else queued_of m u)"
  "active_of (mark_task_started uid tid m) u =
     (if u = uid then finsert tid (active_of m uid) else active_of m u)"
  by (simp_all add: mark_task_started_def Let_def queued_of_def active_of_def)

lemma finished_fields:
  "max_concurrent (mark_task_finished uid tid m) = max_concurrent m"
  "queue (mark_task_finished uid tid m) = queue m"
  "queued_tasks (mark_task_finished uid tid m) = queued_tasks m"
  "processing (mark_task_finished uid tid m) = (if processing m > 0 then processing m - 1 else processing m)"
  by (simp_all add: mark_task_finished_def Let_def)

lemma finished_active_of:
  "active_of (mark_task_finished uid tid m) u =
     (if u = uid then active_of m uid |-| {|tid|} else active_of m u)"
  by (auto simp add: mark_task_finished_def Let_def active_of_def split: option.splits)

lemma finished_noop:
  "tid |\<notin>| active_of m uid \<Longrightarrow> active_tasks (mark_task_finished uid tid m) = active_tasks m"
  by (auto simp add: mark_task_finished_def Let_def active_of_def split: option.splits)

subsection \<open>The cap in every reachable state\<close>

lemma filter_length_update:
  "w < length xs \<Longrightarrow>
   length (filter P (xs[w := x])) + (if P (xs ! w) then 1 else 0) =
   length (filter P xs) + (if P x then 1 else 0)"
proof (induction xs arbitrary: w)
  case Nil
  then show ?case by simp
next
  case (Cons a xs)
  then show ?case by (cases w) auto
qed

lemma pending_add_denied:
  "\<not> fst (add_download uid link fmt (mgr s)) \<Longrightarrow>
   s\<lparr>mgr := snd (add_download uid link fmt (mgr s))\<rparr> = s"
  by (simp add: add_download_denied)

lemma quota_inv_init: "quota_inv (init mc)"
  by (simp add: quota_inv_def init_def new_manager_def pending_for_def queued_of_def
      active_of_def fetched_for_def fcard_fempty)

lemma quota_inv_add:
  assumes "quota_inv s"
  shows "quota_inv (s\<lparr>mgr := snd (add_download uid link fmt (mgr s))\<rparr>)"
proof (cases "fst (add_download uid link fmt (mgr s))")
  case False
  then show ?thesis using assms by (simp add: pending_add_denied)
next
  case True
  note ok = add_download_allowed[OF True]
  show ?thesis
    unfolding quota_inv_def
  proof (intro allI)
    fix u
    from assms have a: "int (pending_for u s) \<le> queued_of (mgr s) u"
      and b: "queued_of (mgr s) u + int (fcard (active_of (mgr s) u)) \<le> max_concurrent (mgr s)"
      by (simp_all add: quota_inv_def)
    show "int (pending_for u (s\<lparr>mgr := snd (add_download uid link fmt (mgr s))\<rparr>))
            \<le> queued_of (mgr (s\<lparr>mgr := snd (add_download uid link fmt (mgr s))\<rparr>)) u \<and>
          queued_of (mgr (s\<lparr>mgr := snd (add_download uid link fmt (mgr s))\<rparr>)) u
            + int (fcard (active_of (mgr (s\<lparr>mgr := snd (add_download uid link fmt (mgr s))\<rparr>)) u))
            \<le> max_concurrent (mgr (s\<lparr>mgr := snd (add_download uid link fmt (mgr s))\<rparr>))"
      using a b ok(4)
      by (auto simp add: pending_for_def queued_of_def active_of_def ok(1,2) add_download_fields
          queued_for_def item_user_def)
  qed
qed

lemma quota_inv_get:
  assumes "quota_inv s" and "step (Get w) s = Some s'"
  shows "quota_inv s'"
proof -
  from assms(2) have w: "w < length (workers s)" and idle: "workers s ! w = Idle"
    by (auto split: if_splits)
  have nf: "\<And>u. \<not> fetched_for u Idle" "\<And>u. \<not> fetched_for u Stopped"
    by (simp_all add: fetched_for_def)
  show ?thesis
  proof (cases "queue (mgr s)")
    case Nil
    with assms(2) w idle show ?thesis by simp
  next
    case (Cons e q)
    show ?thesis
    proof (cases e)
      case None
      with Cons assms(2) w idle
      have s': "s' = s\<lparr>mgr := (mgr s)\<lparr>queue := q\<rparr>, workers := (workers s)[w := Stopped]\<rparr>"
        by simp
      have "pending_for u s' = pending_for u s" for u
      proof -
        have "length (filter (fetched_for u) ((workers s)[w := Stopped]))
                + (if fetched_for u (workers s ! w) then 1 else 0)
              = length (filter (fetched_for u) (workers s))
                + (if fetched_for u Stopped then 1 else 0)"
          by (rule filter_length_update[OF w])
        then show ?thesis
          by (simp add: idle nf Cons None s' pending_for_def queued_for_def)
      qed
      then show ?thesis using assms(1)
        by (simp add: quota_inv_def s' queued_of_def active_of_def)
    next
      case (Some it)
      with Cons assms(2) w idle
      have s': "s' = s\<lparr>mgr := (mgr s)\<lparr>queue := q\<rparr>, workers := (workers s)[w := Fetched it]\<rparr>"
        by simp
      have "pending_for u s' = pending_for u s" for u
      proof -
        have "length (filter (fetched_for u) ((workers s)[w := Fetched it]))
                + (if fetched_for u (workers s ! w) then 1 else 0)
              = length (filter (fetched_for u) (workers s))
                + (if fetched_for u (Fetched it) then 1 else 0)"
          by (rule filter_length_update[OF w])
        then show ?thesis
          by (auto simp add: idle nf Cons Some s' pending_for_def queued_for_def fetched_for_def)
      qed
      then show ?thesis using assms(1)
        by (simp add: quota_inv_def s' queued_of_def active_of_def)
    qed
  qed
qed

lemma quota_inv_start:
  assumes "quota_inv s" and "step (Start w) s = Some s'"
  shows "quota_inv s'"
proof -
  from assms(2) obtain tid uid link fmt where
    w: "w < length (workers s)" and f: "workers s ! w = Fetched (tid, uid, link, fmt)"
    and s': "s' = s\<lparr>mgr := mark_task_started uid tid (mgr s),
                     workers := (workers s)[w := Running (tid, uid, link, fmt)]\<rparr>"
    by (auto split: if_splits wstate.splits)
  have pend: "pending_for u s' + (if u = uid then 1 else 0) = pending_for u s" for u
  proof -
    have "length (filter (fetched_for u) ((workers s)[w := Running (tid, uid, link, fmt)]))
            + (if fetched_for u (workers s ! w) then 1 else 0)
          = length (filter (fetched_for u) (workers s))
            + (if fetched_for u (Running (tid, uid, link, fmt)) then 1 else 0)"
      by (rule filter_length_update[OF w])
    then show ?thesis
      by (auto simp add: f s' pending_for_def fetched_for_def item_user_def started_fields
          split: if_splits)
  qed
  show ?thesis
    unfolding quota_inv_def
  proof (intro allI)
    fix u
    from assms(1) have a: "int (pending_for u s) \<le> queued_of (mgr s) u"
      and b: "queued_of (mgr s) u + int (fcard (active_of (mgr s) u)) \<le> max_concurrent (mgr s)"
      by (simp_all add: quota_inv_def)
    have c: "fcard (finsert tid (active_of (mgr s) uid)) \<le> Suc (fcard (active_of (mgr s) uid))"
      by (simp add: fcard_finsert_if)
    show "int (pending_for u s') \<le> queued_of (mgr s') u \<and>
          queued_of (mgr s') u + int (fcard (active_of (mgr s') u)) \<le> max_concurrent (mgr s')"
      using a b c pend[of u] by (auto simp add: s' started_fields)
  qed
qed

lemma quota_inv_finish:
  assumes "quota_inv s" and "step (Finish w) s = Some s'"
  shows "quota_inv s'"
proof -
  from assms(2) obtain tid uid link fmt where
    w: "w < length (workers s)" and f: "workers s ! w = Running (tid, uid, link, fmt)"
    and s': "s' = s\<lparr>mgr := mark_task_finished uid tid (mgr s), workers := (workers s)[w := Idle]\<rparr>"
    by (auto split: if_splits wstate.splits)
  have pend: "pending_for u s' = pending_for u s" for u
  proof -
    have "length (filter (fetched_for u) ((workers s)[w := Idle]))
            + (if fetched_for u (workers s ! w) then 1 else 0)
          = length (filter (fetched_for u) (workers s)) + (if fetched_for u Idle then 1 else 0)"
      by (rule filter_length_update[OF w])
    then show ?thesis
      by (simp add: f s' pending_for_def fetched_for_def finished_fields)
  qed
  have q: "\<And>u. queued_of (mgr s') u = queued_of (mgr s) u"
    by (simp add: s' queued_of_def finished_fields)
  have c: "\<And>u. fcard (active_of (mgr s') u) \<le> fcard (active_of (mgr s) u)"
    by (simp add: s' finished_active_of fcard_fminus1_le)
  show ?thesis
    unfolding quota_inv_def
  proof (intro allI)
    fix u
    from assms(1) have a: "int (pending_for u s) \<le> queued_of (mgr s) u"
      and b: "queued_of (mgr s) u + int (fcard (active_of (mgr s) u)) \<le> max_concurrent (mgr s)"
      by (simp_all add: quota_inv_def)
    have m: "max_concurrent (mgr s') = max_concurrent (mgr s)"
      by (simp add: s' finished_fields)
    show "int (pending_for u s') \<le> queued_of (mgr s') u \<and>
          queued_of (mgr s') u + int (fcard (active_of (mgr s') u)) \<le> max_concurrent (mgr s')"
      using a b c[of u] by (simp add: pend q m)
  qed
qed

lemma quota_inv_stop:
  assumes "quota_inv s" and "step Stop s = Some s'"
  shows "quota_inv s'"
proof -
  from assms(2)
  have s': "s' = s\<lparr>mgr := (mgr s)\<lparr>queue := queue (mgr s) @ replicate (length (workers s)) None\<rparr>\<rparr>"
    by simp
  have "\<And>u. filter (queued_for u) (replicate (length (workers s)) None) = []"
    by (simp add: queued_for_def)
  then have "\<And>u. pending_for u s' = pending_for u s"
    by (simp add: s' pending_for_def)
  then show ?thesis using assms(1)
    by (simp add: quota_inv_def s' queued_of_def active_of_def)
qed

lemma quota_inv_step:
  assumes "quota_inv s" and "step e s = Some s'"
  shows "quota_inv s'"
proof (cases e)
  case (Add uid link fmt)
  with assms(2) have "s' = s\<lparr>mgr := snd (add_download uid link fmt (mgr s))\<rparr>" by simp
  then show ?thesis using quota_inv_add[OF assms(1)] by simp
next
  case (Get w)
  then show ?thesis using assms quota_inv_get by blast
next
  case (Start w)
  then show ?thesis using assms quota_inv_start by blast
next
  case (Finish w)
  then show ?thesis using assms quota_inv_finish by blast
next
  case Stop
  then show ?thesis using assms quota_inv_stop by blast
qed

lemma quota_inv_exec:
  "quota_inv s \<Longrightarrow> exec es s = Some s' \<Longrightarrow> quota_inv s'"
proof (induction es arbitrary: s)
  case Nil
  then show ?case by simp
next
  case (Cons e es)
  then show ?case by (auto split: option.splits dest: quota_inv_step)
qed

text \<open>
  Claim C1. In every state the system reaches from \<open>init\<close> by any interleaving of
  \<open>add_download\<close> calls and of the workers' steps (taking an entry, \<open>_mark_task_started\<close>,
  \<open>_mark_task_finished\<close>, stop sentinels), each requester's queued count plus the size
  of its active set is at most \<open>max_concurrent\<close>.
\<close>

theorem per_requester_cap_holds:
  assumes "exec es (init mc) = Some s"
  shows "queued_of (mgr s) uid + int (fcard (active_of (mgr s) uid)) \<le> max_concurrent (mgr s)"
  using quota_inv_exec[OF quota_inv_init assms] by (simp add: quota_inv_def)

subsection \<open>Counters never go below zero\<close>

lemma counters_ok_new: "counters_ok (new_manager mc)"
  by (simp add: counters_ok_def new_manager_def)

lemma counters_ok_queued: "counters_ok m \<Longrightarrow> 0 \<le> queued_of m u"
  by (fastforce simp add: counters_ok_def queued_of_def split: option.splits dest: order.strict_implies_order)

lemma counters_ok_add: "counters_ok m \<Longrightarrow> counters_ok (snd (add_download uid link fmt m))"
  using counters_ok_queued[of m uid]
  by (auto simp add: counters_ok_def add_download_def Let_def)

lemma counters_ok_started: "counters_ok m \<Longrightarrow> counters_ok (mark_task_started uid tid m)"
  by (auto simp add: counters_ok_def mark_task_started_def Let_def)

lemma counters_ok_finished: "counters_ok m \<Longrightarrow> counters_ok (mark_task_finished uid tid m)"
  by (auto simp add: counters_ok_def finished_fields)

lemma counters_ok_run: "counters_ok m \<Longrightarrow> counters_ok (run_calls cs m)"
proof (induction cs arbitrary: m)
  case Nil
  then show ?case by simp
next
  case (Cons c cs)
  have "counters_ok (apply_call c m)"
    using Cons.prems
    by (cases c) (simp_all add: counters_ok_add counters_ok_started counters_ok_finished)
  then show ?case using Cons.IH by simp
qed

text \<open>
  Claim C10. After any sequence of calls of the three operations on a fresh manager,
  \<open>processing\<close> and every requester's queued count are non-negative; and in any manager
  state, \<open>_mark_task_finished\<close> for a task id that is not in the requester's active set
  leaves \<open>active_tasks\<close> and \<open>queued_tasks\<close> as they were.
\<close>

theorem quota_counters_never_negative:
  "0 \<le> processing (run_calls cs (new_manager mc))
   \<and> (\<forall>uid. 0 \<le> queued_of (run_calls cs (new_manager mc)) uid)
   \<and> (tid |\<notin>| active_of m uid \<longrightarrow>
        active_tasks (mark_task_finished uid tid m) = active_tasks m
        \<and> queued_tasks (mark_task_finished uid tid m) = queued_tasks m)"
proof -
  have ok: "counters_ok (run_calls cs (new_manager mc))"
    by (rule counters_ok_run[OF counters_ok_new])
  then have "0 \<le> processing (run_calls cs (new_manager mc))"
    by (simp add: counters_ok_def)
  moreover have "\<forall>uid. 0 \<le> queued_of (run_calls cs (new_manager mc)) uid"
    using ok by (simp add: counters_ok_queued)
  ultimately show ?thesis
    by (simp add: finished_noop finished_fields)
qed

text \<open>Claim C10 at a spurious finish, a start with nothing queued and a doubled finish.\<close>

theorem quota_counters_never_negative_witness:
  "(5 |\<notin>| active_of (new_manager 3) 7)
   \<and> 0 \<le> processing (run_calls [CallFinished 7 5, CallStarted 7 1, CallFinished 7 1, CallFinished 7 1]
                (new_manager 3))
   \<and> 0 \<le> queued_of (run_calls [CallFinished 7 5, CallStarted 7 1, CallFinished 7 1, CallFinished 7 1]
                (new_manager 3)) 7
   \<and> active_tasks (mark_task_finished 7 5 (new_manager 3)) = active_tasks (new_manager 3)
   \<and> queued_tasks (mark_task_finished 7 5 (new_manager 3)) = queued_tasks (new_manager 3)"
proof -
  have h: "5 |\<notin>| active_of (new_manager 3) 7"
    by (simp add: active_of_def new_manager_def)
  show ?thesis
    using h quota_counters_never_negative[of
        "[CallFinished 7 5, CallStarted 7 1, CallFinished 7 1, CallFinished 7 1]" 3 5
        "new_manager 3" 7]
    by blast
qed

subsection \<open>Admission\<close>

text \<open>
  Claim C6, as amended. For a request whose mode is \<open>video\<close> or \<open>audio\<close>,
  \<open>add_download\<close> returns \<open>True\<close> exactly when the requester's active count plus queued
  count is strictly below the cap; a request with any other mode is refused. On success
  the requester's queued count grows by one, no other quota entry changes, and exactly
  one entry is appended to the queue; on refusal the manager is unchanged. A requester
  at the cap is refused, and once \<open>_mark_task_finished\<close> has removed one of its active
  tasks the next valid request of that requester is admitted.
\<close>

theorem admission_rule:
  "(fmt \<in> {VIDEO, AUDIO} \<longrightarrow>
      (fst (add_download uid link fmt m)
         \<longleftrightarrow> int (fcard (active_of m uid)) + queued_of m uid < max_concurrent m))
   \<and> (fmt \<notin> {VIDEO, AUDIO} \<longrightarrow> \<not> fst (add_download uid link fmt m))
   \<and> (fst (add_download uid link fmt m) \<longrightarrow>
        queued_of (snd (add_download uid link fmt m)) uid = queued_of m uid + 1
        \<and> (\<forall>u. u \<noteq> uid \<longrightarrow> queued_of (snd (add_download uid link fmt m)) u = queued_of m u)
        \<and> active_tasks (snd (add_download uid link fmt m)) = active_tasks m
        \<and> queue (snd (add_download uid link fmt m))
            = queue m @ [Some (task_counter m + 1, uid, link, fmt)])
   \<and> (\<not> fst (add_download uid link fmt m) \<longrightarrow> snd (add_download uid link fmt m) = m)
   \<and> (max_concurrent m \<le> int (fcard (active_of m uid)) + queued_of m uid \<longrightarrow>
        \<not> fst (add_download uid link fmt m))
   \<and> (fmt \<in> {VIDEO, AUDIO}
        \<and> int (fcard (active_of m uid)) + queued_of m uid \<le> max_concurrent m
        \<and> tid |\<in>| active_of m uid \<longrightarrow>
        fst (add_download uid link fmt (mark_task_finished uid tid m)))"
proof -
  have after: "fst (add_download uid link fmt (mark_task_finished uid tid m))"
    if v: "fmt \<in> {VIDEO, AUDIO}"
      and le: "int (fcard (active_of m uid)) + queued_of m uid \<le> max_concurrent m"
      and mem: "tid |\<in>| active_of m uid"
  proof -
    have "fcard (active_of m uid |-| {|tid|}) < fcard (active_of m uid)"
      using mem by (rule fcard_fminus1_less)
    then have "int (fcard (active_of (mark_task_finished uid tid m) uid))
                 + queued_of (mark_task_finished uid tid m) uid < max_concurrent m"
      using le by (simp add: finished_active_of queued_of_def finished_fields)
    then show ?thesis using v by (simp add: add_download_iff finished_fields)
  qed
  have inc: "queued_of (snd (add_download uid link fmt m)) uid = queued_of m uid + 1
        \<and> (\<forall>u. u \<noteq> uid \<longrightarrow> queued_of (snd (add_download uid link fmt m)) u = queued_of m u)
        \<and> active_tasks (snd (add_download uid link fmt m)) = active_tasks m
        \<and> queue (snd (add_download uid link fmt m))
            = queue m @ [Some (task_counter m + 1, uid, link, fmt)]"
    if "fst (add_download uid link fmt m)"
    using add_download_allowed(1,2)[OF that]
    by (simp add: queued_of_def add_download_fields)
  show ?thesis
    using after inc
    by (auto simp add: add_download_iff add_download_denied)
qed

text \<open>
  Claim C6 as first stated, without the condition on the mode, fails: a request with the
  mode \<open>gif\<close> is refused although the requester holds nothing.
\<close>

theorem admission_counterexample:
  "\<not> (\<forall>uid link fmt m.
        fst (add_download uid link fmt m)
          \<longleftrightarrow> int (fcard (active_of m uid)) + queued_of m uid < max_concurrent m)"
proof
  assume a: "\<forall>uid link fmt m.
        fst (add_download uid link fmt m)
          \<longleftrightarrow> int (fcard (active_of m uid)) + queued_of m uid < max_concurrent m"
  have "\<not> fst (add_download 7 demo_link (ascii ''gif'') (new_manager 3))"
    by (simp add: add_download_def VIDEO_def AUDIO_def ascii_def)
  moreover have "int (fcard (active_of (new_manager 3) 7)) + queued_of (new_manager 3) 7
                   < max_concurrent (new_manager 3)"
    by (simp add: active_of_def queued_of_def new_manager_def fcard_fempty)
  ultimately show False using a by blast
qed

subsection \<open>Concrete runs\<close>

lemma demo_eval:
  "\<exists>s. exec demo_trace (init 3) = Some s \<and> queued_of (mgr s) 7 = 2 \<and> active_of (mgr s) 7 = {||}
     \<and> max_concurrent (mgr s) = 3"
  by (simp add: demo_trace_def init_def new_manager_def add_download_def
      mark_task_started_def mark_task_finished_def active_of_def queued_of_def Let_def
      VIDEO_def AUDIO_def ascii_def fcard_fempty fcard_finsert_if numeral_eq_Suc)

text \<open>Claim C1 on a run of two workers serving one requester, with one refusal.\<close>

theorem per_requester_cap_holds_witness:
  "\<exists>s. exec demo_trace (init 3) = Some s
       \<and> queued_of (mgr s) 7 + int (fcard (active_of (mgr s) 7)) \<le> max_concurrent (mgr s)"
proof -
  obtain s where s: "exec demo_trace (init 3) = Some s"
    using demo_eval by blast
  from per_requester_cap_holds[OF s] s show ?thesis by blast
qed

lemma full_slot_eval:
  "active_of full_slot 7 = {|1|}" "queued_of full_slot 7 = 0" "max_concurrent full_slot = 1"
  by (simp_all add: full_slot_def new_manager_def add_download_def mark_task_started_def
      active_of_def queued_of_def Let_def VIDEO_def AUDIO_def ascii_def fcard_fempty)

text \<open>Claim C6 at a manager of cap one whose only slot is taken.\<close>

theorem admission_rule_witness:
  "VIDEO \<in> {VIDEO, AUDIO}
   \<and> max_concurrent full_slot \<le> int (fcard (active_of full_slot 7)) + queued_of full_slot 7
   \<and> 1 |\<in>| active_of full_slot 7
   \<and> \<not> fst (add_download 7 demo_link VIDEO full_slot)
   \<and> snd (add_download 7 demo_link VIDEO full_slot) = full_slot
   \<and> fst (add_download 7 demo_link VIDEO (mark_task_finished 7 1 full_slot))
   \<and> queued_of (snd (add_download 7 demo_link VIDEO (mark_task_finished 7 1 full_slot))) 7
       = queued_of (mark_task_finished 7 1 full_slot) 7 + 1"
proof -
  have h: "VIDEO \<in> {VIDEO, AUDIO}"
    "max_concurrent full_slot \<le> int (fcard (active_of full_slot 7)) + queued_of full_slot 7"
    "int (fcard (active_of full_slot 7)) + queued_of full_slot 7 \<le> max_concurrent full_slot"
    "1 |\<in>| active_of full_slot 7"
    by (simp_all add: full_slot_eval fcard_finsert_if fcard_fempty)
  show ?thesis
    using h admission_rule[of VIDEO 7 demo_link full_slot 1]
      admission_rule[of VIDEO 7 demo_link "mark_task_finished 7 1 full_slot" 1]
    by blast
qed

section \<open>Proofs: the classifier\<close>

lemma str_in_iff: "str_in needle hay \<longleftrightarrow> occurs_in needle hay"
proof (induction hay)
  case Nil
  then show ?case by (auto simp add: occurs_in_def)
next
  case (Cons c cs)
  show ?case
  proof
    assume "str_in needle (c # cs)"
    then consider "prefix needle (c # cs)" | "str_in needle cs" by auto
    then show "occurs_in needle (c # cs)"
    proof cases
      case 1
      then obtain post where "c # cs = needle @ post" by (auto simp add: prefix_def)
      then have "c # cs = [] @ needle @ post" by simp
      then show ?thesis unfolding occurs_in_def by blast
    next
      case 2
      with Cons.IH obtain pre post where "cs = pre @ needle @ post"
        by (auto simp add: occurs_in_def)
      then have "c # cs = (c # pre) @ needle @ post" by simp
      then show ?thesis unfolding occurs_in_def by blast
    qed
  next
    assume "occurs_in needle (c # cs)"
    then obtain pre post where e: "c # cs = pre @ needle @ post"
      by (auto simp add: occurs_in_def)
    show "str_in needle (c # cs)"
    proof (cases pre)
      case Nil
      with e have "prefix needle (c # cs)" by (simp add: prefix_def)
      then show ?thesis by simp
    next
      case (Cons p ps)
      with e have "cs = ps @ needle @ post" by simp
      then have "occurs_in needle cs" unfolding occurs_in_def by blast
      with Cons.IH show ?thesis by simp
    qed
  qed
qed

text \<open>
  Claim C5. Whatever \<open>str.lower()\<close> is: a failure text is classified as recoverable
  exactly when, letter case aside, it names the platform (\<open>tiktok\<close> occurs in the
  lower-cased text) and one of the four transient phrases occurs in the lower-cased text;
  every other text is not recoverable.
\<close>

theorem recoverable_iff_platform_and_phrase:
  "is_tiktok_extraction_error lower error
     \<longleftrightarrow> names_tiktok lower (str_exn error) \<and> has_transient_phrase lower (str_exn error)"
  by (simp add: is_tiktok_extraction_error_def Let_def names_tiktok_def has_transient_phrase_def
      transient_tokens_def str_in_iff)

text \<open>
  Claim C5 on the message of the specification: with the platform's name it is
  recoverable, also when the name is spelt with the Kelvin sign, which \<open>str.lower()\<close>
  turns into \<open>k\<close>; with another platform's name it is not, although the phrase is there.
\<close>

theorem recoverable_iff_platform_and_phrase_witness:
  "is_tiktok_extraction_error demo_lower (Exn (ascii ''ERROR: [TikTok] 123: Video not available''))
   \<and> names_tiktok demo_lower (ascii ''ERROR: [TikTok] 123: Video not available'')
   \<and> has_transient_phrase demo_lower (ascii ''ERROR: [TikTok] 123: Video not available'')
   \<and> \<not> is_tiktok_extraction_error demo_lower (Exn (ascii ''ERROR: [Vimeo] 123: Video not available''))
   \<and> \<not> names_tiktok demo_lower (ascii ''ERROR: [Vimeo] 123: Video not available'')
   \<and> is_tiktok_extraction_error demo_lower (Exn demo_kelvin)
   \<and> names_tiktok demo_lower demo_kelvin"
proof -
  have k: "is_tiktok_extraction_error demo_lower (Exn demo_kelvin)"
    by (simp add: is_tiktok_extraction_error_def Let_def transient_tokens_def ascii_def
        demo_lower_def demo_lower_cp_def demo_kelvin_def)
  have a: "is_tiktok_extraction_error demo_lower (Exn (ascii ''ERROR: [TikTok] 123: Video not available''))"
    by (simp add: is_tiktok_extraction_error_def Let_def transient_tokens_def ascii_def
        demo_lower_def demo_lower_cp_def)
  have b: "\<not> is_tiktok_extraction_error demo_lower (Exn (ascii ''ERROR: [Vimeo] 123: Video not available''))"
    by (simp add: is_tiktok_extraction_error_def Let_def transient_tokens_def ascii_def
        demo_lower_def demo_lower_cp_def)
  have c: "has_transient_phrase demo_lower (ascii ''ERROR: [Vimeo] 123: Video not available'')"
    by (simp add: has_transient_phrase_def str_in_iff[symmetric] ascii_def demo_lower_def
        demo_lower_cp_def)
  show ?thesis
    using a b c k
      recoverable_iff_platform_and_phrase[of demo_lower "Exn demo_kelvin"]
      recoverable_iff_platform_and_phrase[of demo_lower
        "Exn (ascii ''ERROR: [TikTok] 123: Video not available'')"]
      recoverable_iff_platform_and_phrase[of demo_lower
        "Exn (ascii ''ERROR: [Vimeo] 123: Video not available'')"]
    by simp
qed

section \<open>Proofs: canonical URLs and the attempt plan\<close>

lemma video_seg_length: "length video_seg = 7"
  by (simp add: video_seg_def ascii_def)

lemma video_match_head:
  assumes "video_match digit (c # cs) [] ds post"
  shows "prefix video_seg (c # cs) \<and> takeWhile digit (drop (length video_seg) (c # cs)) = ds"
proof -
  from assms have e: "c # cs = video_seg @ ds @ post" and d: "list_all digit ds"
    and p: "case post of [] \<Rightarrow> True | d # _ \<Rightarrow> \<not> digit d"
    by (simp_all add: video_match_def)
  have "takeWhile digit (ds @ post) = ds"
    using d p by (cases post) (simp_all add: list_all_iff)
  then show ?thesis using e by (simp add: prefix_def)
qed

lemma video_match_tail:
  "video_match digit (c # cs) (p # ps) ds post \<longleftrightarrow> p = c \<and> video_match digit cs ps ds post"
  by (auto simp add: video_match_def)

lemma head_is_match:
  assumes "prefix video_seg link" and "takeWhile digit (drop (length video_seg) link) \<noteq> []"
  shows "video_match digit link [] (takeWhile digit (drop (length video_seg) link))
           (dropWhile digit (drop (length video_seg) link))"
proof -
  from assms(1) obtain r where r: "link = video_seg @ r" by (auto simp add: prefix_def)
  have d: "drop (length video_seg) link = r" by (simp add: r)
  have 1: "link = [] @ video_seg @ takeWhile digit r @ dropWhile digit r"
    by (simp add: r)
  have 2: "takeWhile digit r \<noteq> []" using assms(2) unfolding d .
  have 3: "list_all digit (takeWhile digit r)"
    by (auto simp add: list_all_iff dest: set_takeWhileD)
  have 4: "case dropWhile digit r of [] \<Rightarrow> True | d # _ \<Rightarrow> \<not> digit d"
  proof (cases "dropWhile digit r")
    case Nil
    show ?thesis unfolding Nil by simp
  next
    case (Cons d rest)
    have "dropWhile digit r \<noteq> []" unfolding Cons by simp
    then have "\<not> digit (hd (dropWhile digit r))" by (rule hd_dropWhile)
    then show ?thesis unfolding Cons by simp
  qed
  show ?thesis
    unfolding video_match_def d using 1 2 3 4 by (intro conjI)
qed

lemma search_sound:
  "search_video_id digit link = Some ds \<Longrightarrow> \<exists>pre post. first_video_match digit link pre ds post"
proof (induction link)
  case Nil
  then show ?case by simp
next
  case (Cons c cs)
  show ?case
  proof (cases "prefix video_seg (c # cs)
                 \<and> takeWhile digit (drop (length video_seg) (c # cs)) \<noteq> []")
    case True
    with Cons.prems have ds: "ds = takeWhile digit (drop (length video_seg) (c # cs))"
      by simp
    have "video_match digit (c # cs) [] ds (dropWhile digit (drop (length video_seg) (c # cs)))"
      unfolding ds using True by (intro head_is_match) simp_all
    then have "first_video_match digit (c # cs) [] ds
                 (dropWhile digit (drop (length video_seg) (c # cs)))"
      by (simp add: first_video_match_def)
    then show ?thesis by blast
  next
    case False
    with Cons.prems have "search_video_id digit cs = Some ds" by auto
    with Cons.IH obtain pre post where f: "first_video_match digit cs pre ds post" by blast
    have "first_video_match digit (c # cs) (c # pre) ds post"
      unfolding first_video_match_def
    proof (intro conjI allI impI)
      show "video_match digit (c # cs) (c # pre) ds post"
        using f by (simp add: first_video_match_def video_match_tail)
    next
      fix pre' ds' post'
      assume m: "video_match digit (c # cs) pre' ds' post'"
      show "length (c # pre) \<le> length pre'"
      proof (cases pre')
        case Nil
        with m have "video_match digit (c # cs) [] ds' post'" by simp
        from video_match_head[OF this] m False show ?thesis
          by (auto simp add: video_match_def)
      next
        case (Cons p ps)
        with m have "video_match digit cs ps ds' post'" by (simp add: video_match_tail)
        with f have "length pre \<le> length ps" by (auto simp add: first_video_match_def)
        with Cons show ?thesis by simp
      qed
    qed
    then show ?thesis by blast
  qed
qed

lemma search_complete:
  "video_match digit link pre ds post \<Longrightarrow> search_video_id digit link \<noteq> None"
proof (induction pre arbitrary: link)
  case Nil
  then have "link \<noteq> []" by (auto simp add: video_match_def)
  then obtain c cs where l: "link = c # cs" by (cases link) auto
  with Nil have m: "video_match digit (c # cs) [] ds post" by simp
  have "ds \<noteq> []" using m by (simp add: video_match_def)
  with video_match_head[OF m]
  have "prefix video_seg (c # cs)
          \<and> takeWhile digit (drop (length video_seg) (c # cs)) \<noteq> []"
    by simp
  then show ?case unfolding l by simp
next
  case (Cons p ps)
  then obtain cs where l: "link = p # cs" by (auto simp add: video_match_def)
  with Cons.prems have "video_match digit cs ps ds post" by (simp add: video_match_tail)
  with Cons.IH have "search_video_id digit cs \<noteq> None" by blast
  then show ?case by (auto simp add: l)
qed

lemma has_segment_iff_match:
  "has_video_segment digit link \<longleftrightarrow> (\<exists>pre ds post. video_match digit link pre ds post)"
proof
  assume "has_video_segment digit link"
  then obtain pre d post where l: "link = pre @ video_seg @ d # post" and d: "digit d"
    by (auto simp add: has_video_segment_def)
  let ?r = "d # post"
  have "video_match digit (video_seg @ ?r) [] (takeWhile digit (drop (length video_seg) (video_seg @ ?r)))
          (dropWhile digit (drop (length video_seg) (video_seg @ ?r)))"
    using d by (intro head_is_match) simp_all
  then have "video_match digit link pre (takeWhile digit ?r) (dropWhile digit ?r)"
    using l by (simp add: video_match_def)
  then show "\<exists>pre ds post. video_match digit link pre ds post" by blast
next
  assume "\<exists>pre ds post. video_match digit link pre ds post"
  then obtain pre ds post where m: "video_match digit link pre ds post" by blast
  then obtain d ds' where "ds = d # ds'" by (cases ds) (auto simp add: video_match_def)
  with m have "link = pre @ video_seg @ d # (ds' @ post) \<and> digit d"
    by (simp add: video_match_def)
  then show "has_video_segment digit link" unfolding has_video_segment_def by blast
qed


lemma search_root:
  assumes "ds \<noteq> []" and "list_all digit ds"
  shows "search_video_id digit (tiktok_root @ ds) = Some ds"
proof -
  have t: "takeWhile digit ds = ds"
    using assms(2) by (simp add: list_all_iff)
  show ?thesis
    using assms(1) by (simp add: tiktok_root_def video_seg_def ascii_def t)
qed

lemma digit_run:
  assumes "list_all digit ds" and "case post of [] \<Rightarrow> True | d # _ \<Rightarrow> \<not> digit d"
  shows "takeWhile digit (ds @ post) = ds"
  using assms by (cases post) (simp_all add: list_all_iff)

lemma video_match_unique:
  assumes "video_match digit link pre ds post" and "video_match digit link pre' ds' post'"
    and "length pre = length pre'"
  shows "ds = ds'"
proof -
  from assms(1,2) have "pre @ video_seg @ ds @ post = pre' @ video_seg @ ds' @ post'"
    by (simp add: video_match_def)
  with assms(3) have "ds @ post = ds' @ post'" by simp
  then have "takeWhile digit (ds @ post) = takeWhile digit (ds' @ post')" by simp
  moreover have "takeWhile digit (ds @ post) = ds"
    using assms(1) by (intro digit_run) (simp_all add: video_match_def)
  moreover have "takeWhile digit (ds' @ post') = ds'"
    using assms(2) by (intro digit_run) (simp_all add: video_match_def)
  ultimately show ?thesis by simp
qed

lemma search_first:
  assumes "first_video_match digit link pre ds post"
  shows "search_video_id digit link = Some ds"
proof -
  from assms have m: "video_match digit link pre ds post" by (simp add: first_video_match_def)
  from search_complete[OF m] obtain ds' where s: "search_video_id digit link = Some ds'" by auto
  from search_sound[OF s] obtain pre' post' where f: "first_video_match digit link pre' ds' post'"
    by blast
  from f have m': "video_match digit link pre' ds' post'" by (simp add: first_video_match_def)
  from assms m' have "length pre \<le> length pre'"
    unfolding first_video_match_def by blast
  moreover from f m have "length pre' \<le> length pre"
    unfolding first_video_match_def by blast
  ultimately have "length pre = length pre'" by simp
  with m m' have "ds = ds'" by (rule video_match_unique)
  with s show ?thesis by simp
qed

lemma search_none_iff: "search_video_id digit link = None \<longleftrightarrow> \<not> has_video_segment digit link"
proof
  assume n: "search_video_id digit link = None"
  show "\<not> has_video_segment digit link"
  proof
    assume "has_video_segment digit link"
    then obtain pre ds post where "video_match digit link pre ds post"
      by (auto simp add: has_segment_iff_match)
    from search_complete[OF this] n show False by simp
  qed
next
  assume h: "\<not> has_video_segment digit link"
  show "search_video_id digit link = None"
  proof (cases "search_video_id digit link")
    case None
    then show ?thesis .
  next
    case (Some ds)
    from search_sound[OF Some] have "\<exists>pre ds post. video_match digit link pre ds post"
      by (auto simp add: first_video_match_def)
    with h show ?thesis by (simp add: has_segment_iff_match)
  qed
qed

text \<open>
  Claim C7. Whatever the digit class of \<open>\d\<close> is: the canonical URL of a link is
  \<open>https://www.tiktok.com/@_/video/\<close> followed by the digit run of the first occurrence
  of \<open>/video/<digits>\<close> in the link, and only that; a link without such an occurrence
  has no canonical URL; and a canonical URL is its own canonical URL.
\<close>

theorem canonical_url_of_first_digit_run:
  "(canonicalize_tiktok_video_url digit link = Some c
      \<longleftrightarrow> (\<exists>pre ds post. first_video_match digit link pre ds post \<and> c = tiktok_root @ ds))
   \<and> (canonicalize_tiktok_video_url digit link = None \<longleftrightarrow> \<not> has_video_segment digit link)
   \<and> (canonicalize_tiktok_video_url digit link = Some c \<longrightarrow>
        canonicalize_tiktok_video_url digit c = Some c)"
proof (intro conjI)
  show "canonicalize_tiktok_video_url digit link = Some c
      \<longleftrightarrow> (\<exists>pre ds post. first_video_match digit link pre ds post \<and> c = tiktok_root @ ds)"
  proof
    assume "canonicalize_tiktok_video_url digit link = Some c"
    then obtain ds where s: "search_video_id digit link = Some ds" and c: "c = tiktok_root @ ds"
      by (auto simp add: canonicalize_tiktok_video_url_def split: option.splits)
    from search_sound[OF s] c
    show "\<exists>pre ds post. first_video_match digit link pre ds post \<and> c = tiktok_root @ ds"
      by blast
  next
    assume "\<exists>pre ds post. first_video_match digit link pre ds post \<and> c = tiktok_root @ ds"
    then obtain pre ds post where f: "first_video_match digit link pre ds post"
      and c: "c = tiktok_root @ ds" by blast
    from search_first[OF f] c show "canonicalize_tiktok_video_url digit link = Some c"
      by (simp add: canonicalize_tiktok_video_url_def)
  qed
next
  show "canonicalize_tiktok_video_url digit link = None \<longleftrightarrow> \<not> has_video_segment digit link"
    using search_none_iff[of digit link]
    by (cases "search_video_id digit link") (simp_all add: canonicalize_tiktok_video_url_def)
next
  show "canonicalize_tiktok_video_url digit link = Some c \<longrightarrow>
        canonicalize_tiktok_video_url digit c = Some c"
  proof
    assume "canonicalize_tiktok_video_url digit link = Some c"
    then obtain ds where s: "search_video_id digit link = Some ds" and c: "c = tiktok_root @ ds"
      by (auto simp add: canonicalize_tiktok_video_url_def split: option.splits)
    from search_sound[OF s] have "ds \<noteq> []" and "list_all digit ds"
      by (auto simp add: first_video_match_def video_match_def)
    then have "search_video_id digit (tiktok_root @ ds) = Some ds" by (rule search_root)
    with c show "canonicalize_tiktok_video_url digit c = Some c"
      by (simp add: canonicalize_tiktok_video_url_def)
  qed
qed

text \<open>
  Claim C7 on a link with a video id and query text, on a short link, and on a link whose
  video id is written in fullwidth digits.
\<close>

theorem canonical_url_of_first_digit_run_witness:
  "canonicalize_tiktok_video_url demo_digit demo_tiktok = Some demo_canonical
   \<and> canonicalize_tiktok_video_url demo_digit demo_canonical = Some demo_canonical
   \<and> has_video_segment demo_digit demo_tiktok
   \<and> (\<exists>pre ds post. first_video_match demo_digit demo_tiktok pre ds post
         \<and> demo_canonical = tiktok_root @ ds)
   \<and> canonicalize_tiktok_video_url demo_digit demo_short = None
   \<and> \<not> has_video_segment demo_digit demo_short
   \<and> canonicalize_tiktok_video_url demo_digit demo_fullwidth
       = Some (tiktok_root @ [65297, 65298, 65299])
   \<and> has_video_segment demo_digit demo_fullwidth"
proof -
  have f: "canonicalize_tiktok_video_url demo_digit demo_fullwidth
       = Some (tiktok_root @ [65297, 65298, 65299])"
    by (simp add: canonicalize_tiktok_video_url_def demo_fullwidth_def
        tiktok_root_def video_seg_def demo_digit_def ascii_def)
  note w = canonical_url_of_first_digit_run[of demo_digit demo_fullwidth
      "tiktok_root @ [65297, 65298, 65299]"]
  from w f have x5: "has_video_segment demo_digit demo_fullwidth" by auto
  have a: "canonicalize_tiktok_video_url demo_digit demo_tiktok = Some demo_canonical"
    by (simp add: canonicalize_tiktok_video_url_def demo_tiktok_def demo_canonical_def
        tiktok_root_def video_seg_def demo_digit_def ascii_def)
  have b: "canonicalize_tiktok_video_url demo_digit demo_short = None"
    by (simp add: canonicalize_tiktok_video_url_def demo_short_def video_seg_def ascii_def)
  note t = canonical_url_of_first_digit_run[of demo_digit demo_tiktok demo_canonical]
  note u = canonical_url_of_first_digit_run[of demo_digit demo_short demo_canonical]
  from t a have x1: "\<exists>pre ds post. first_video_match demo_digit demo_tiktok pre ds post
         \<and> demo_canonical = tiktok_root @ ds" by blast
  from t a have x2: "has_video_segment demo_digit demo_tiktok" by auto
  from t a have x3: "canonicalize_tiktok_video_url demo_digit demo_canonical = Some demo_canonical"
    by blast
  from u b have x4: "\<not> has_video_segment demo_digit demo_short" by blast
  from a x3 x2 x1 b x4 f x5 show ?thesis by (intro conjI)
qed

lemma canonical_nonempty: "canonicalize_tiktok_video_url digit link = Some c \<Longrightarrow> c \<noteq> [] \<and> link \<noteq> []"
  by (cases link)
    (auto simp add: canonicalize_tiktok_video_url_def tiktok_root_def ascii_def split: option.splits)

lemma plan_shape:
  "build_tiktok_attempt_plan digit link =
     (case canonicalize_tiktok_video_url digit link of
        None \<Rightarrow> if link = [] then [] else [(link, False), (link, True)]
      | Some c \<Rightarrow> if c = link then [(link, False), (link, True)]
                  else [(link, False), (c, False), (link, True), (c, True)])"
  using canonical_nonempty[of digit link]
  by (auto simp add: build_tiktok_attempt_plan_def candidate_order_def Let_def
      split: option.splits)

text \<open>
  Claim C4. Whatever the digit class of \<open>\d\<close> is: the plan is the list (link, default),
  (canonical, default), (link, alternate), (canonical, alternate), without the entries
  that have no URL and with every repeated pair removed after its first occurrence: at
  most four distinct pairs, and at most two when the link holds no \<open>/video/<digits>\<close>.
\<close>

theorem attempt_plan_priority_and_dedup:
  "build_tiktok_attempt_plan digit link
     = dedup_first (usable [(Some link, False), (canonicalize_tiktok_video_url digit link, False),
                            (Some link, True), (canonicalize_tiktok_video_url digit link, True)])
   \<and> length (build_tiktok_attempt_plan digit link) \<le> 4
   \<and> distinct (build_tiktok_attempt_plan digit link)
   \<and> (\<not> has_video_segment digit link \<longrightarrow> length (build_tiktok_attempt_plan digit link) \<le> 2)"
proof -
  have n: "\<not> has_video_segment digit link \<Longrightarrow> canonicalize_tiktok_video_url digit link = None"
    using search_none_iff[of digit link] by (simp add: canonicalize_tiktok_video_url_def)
  show ?thesis
    using canonical_nonempty[of digit link] n
    by (auto simp add: plan_shape split: option.splits)
qed

text \<open>
  Claim C4 on a link with a video id (four candidates, the second one canonical), on a
  canonical link (two), on a short link (two) and on a link whose video id is written in
  fullwidth digits (four).
\<close>

theorem attempt_plan_priority_and_dedup_witness:
  "\<not> has_video_segment demo_digit demo_short
   \<and> length (build_tiktok_attempt_plan demo_digit demo_short) \<le> 2
   \<and> build_tiktok_attempt_plan demo_digit demo_short = [(demo_short, False), (demo_short, True)]
   \<and> build_tiktok_attempt_plan demo_digit demo_tiktok
       = [(demo_tiktok, False), (demo_canonical, False), (demo_tiktok, True),
          (demo_canonical, True)]
   \<and> build_tiktok_attempt_plan demo_digit demo_canonical
       = [(demo_canonical, False), (demo_canonical, True)]
   \<and> distinct (build_tiktok_attempt_plan demo_digit demo_tiktok)
   \<and> build_tiktok_attempt_plan demo_digit demo_fullwidth
       = [(demo_fullwidth, False), (tiktok_root @ [65297, 65298, 65299], False),
          (demo_fullwidth, True), (tiktok_root @ [65297, 65298, 65299], True)]"
proof -
  have f: "canonicalize_tiktok_video_url demo_digit demo_fullwidth
       = Some (tiktok_root @ [65297, 65298, 65299])"
    by (simp add: canonicalize_tiktok_video_url_def demo_fullwidth_def
        tiktok_root_def video_seg_def demo_digit_def ascii_def)
  have g: "tiktok_root @ [65297, 65298, 65299] \<noteq> demo_fullwidth"
    by (simp add: demo_fullwidth_def tiktok_root_def ascii_def)
  have a: "canonicalize_tiktok_video_url demo_digit demo_tiktok = Some demo_canonical"
    by (simp add: canonicalize_tiktok_video_url_def demo_tiktok_def demo_canonical_def
        tiktok_root_def video_seg_def demo_digit_def ascii_def)
  have b: "canonicalize_tiktok_video_url demo_digit demo_short = None"
    by (simp add: canonicalize_tiktok_video_url_def demo_short_def video_seg_def ascii_def)
  have c: "canonicalize_tiktok_video_url demo_digit demo_canonical = Some demo_canonical"
    by (simp add: canonicalize_tiktok_video_url_def demo_canonical_def
        tiktok_root_def video_seg_def demo_digit_def ascii_def)
  have d: "demo_tiktok \<noteq> demo_canonical" "demo_short \<noteq> []"
    by (simp_all add: demo_tiktok_def demo_canonical_def demo_short_def ascii_def)
  have e: "\<not> has_video_segment demo_digit demo_short"
    using b search_none_iff[of demo_digit demo_short]
    by (simp add: canonicalize_tiktok_video_url_def split: option.splits)
  show ?thesis
    using a b c d e f g attempt_plan_priority_and_dedup[of demo_digit demo_short]
      attempt_plan_priority_and_dedup[of demo_digit demo_tiktok]
    by (simp add: plan_shape)
qed

section \<open>Proofs: the selected file and the workspace\<close>

subsection \<open>The latest file of a listing\<close>

lemma max_by_mtime_mem: "max_by_mtime best es \<in> set (best # es)"
  by (induction es arbitrary: best) auto

lemma max_by_mtime_ge: "e \<in> set (best # es) \<Longrightarrow> d_mtime e \<le> d_mtime (max_by_mtime best es)"
proof (induction es arbitrary: best e)
  case Nil
  then show ?case by simp
next
  case (Cons x xs)
  let ?b = "if d_mtime x > d_mtime best then x else best"
  have b: "d_mtime best \<le> d_mtime ?b" "d_mtime x \<le> d_mtime ?b" by auto
  have step: "d_mtime ?b \<le> d_mtime (max_by_mtime ?b xs)"
    using Cons.IH[where e = ?b and best = ?b] by simp
  from Cons.prems consider "e = best" | "e = x" | "e \<in> set xs" by auto
  then show ?case
  proof cases
    case 1
    with b(1) step show ?thesis by simp
  next
    case 2
    with b(2) step show ?thesis by simp
  next
    case 3
    then have "d_mtime e \<le> d_mtime (max_by_mtime ?b xs)" using Cons.IH[where e = e and best = ?b] by simp
    then show ?thesis by simp
  qed
qed

lemma latest_of_nonempty:
  assumes "files = f # fs"
  shows "is_latest_of files temp_dir (Some (path_join temp_dir (d_name (max_by_mtime f fs))))"
  unfolding is_latest_of_def
proof (intro bexI conjI ballI)
  show "max_by_mtime f fs \<in> set files" using max_by_mtime_mem[of f fs] assms by simp
next
  fix other assume "other \<in> set files"
  then show "d_mtime other \<le> d_mtime (max_by_mtime f fs)"
    using assms max_by_mtime_ge[of other f fs] by simp
qed simp

lemma find_latest_file_cases:
  assumes "allowed_ext \<noteq> []"
  shows "find_latest_file lower temp_dir entries allowed_ext =
     (case (if matching_files lower allowed_ext entries = [] then workspace_files entries
            else matching_files lower allowed_ext entries) of
        [] \<Rightarrow> None
      | f # fs \<Rightarrow> Some (path_join temp_dir (d_name (max_by_mtime f fs))))"
  using assms by (simp add: find_latest_file_def matching_files_def workspace_files_def Let_def)

lemma find_latest_file_spec:
  assumes "allowed_ext \<noteq> []"
  shows "(matching_files lower allowed_ext entries \<noteq> [] \<longrightarrow>
           is_latest_of (matching_files lower allowed_ext entries) temp_dir
             (find_latest_file lower temp_dir entries allowed_ext))
       \<and> (matching_files lower allowed_ext entries = [] \<and> workspace_files entries \<noteq> [] \<longrightarrow>
           is_latest_of (workspace_files entries) temp_dir
             (find_latest_file lower temp_dir entries allowed_ext))
       \<and> (workspace_files entries = [] \<longrightarrow>
           find_latest_file lower temp_dir entries allowed_ext = None)"
proof (intro conjI impI)
  assume n: "matching_files lower allowed_ext entries \<noteq> []"
  then obtain f fs where m: "matching_files lower allowed_ext entries = f # fs"
    by (cases "matching_files lower allowed_ext entries") auto
  show "is_latest_of (matching_files lower allowed_ext entries) temp_dir
             (find_latest_file lower temp_dir entries allowed_ext)"
    using latest_of_nonempty[OF m] by (simp add: find_latest_file_cases[OF assms] m)
next
  assume a: "matching_files lower allowed_ext entries = [] \<and> workspace_files entries \<noteq> []"
  then obtain f fs where m: "workspace_files entries = f # fs"
    by (cases "workspace_files entries") auto
  show "is_latest_of (workspace_files entries) temp_dir
             (find_latest_file lower temp_dir entries allowed_ext)"
    using latest_of_nonempty[OF m] a by (simp add: find_latest_file_cases[OF assms] m)
next
  assume w: "workspace_files entries = []"
  then have "matching_files lower allowed_ext entries = []"
    by (auto simp add: workspace_files_def matching_files_def filter_empty_conv)
  with w show "find_latest_file lower temp_dir entries allowed_ext = None"
    by (simp add: find_latest_file_cases[OF assms])
qed

subsection \<open>The shape of an execution\<close>

lemma try_block_dir: "mkdtemp ev = Inr d \<Longrightarrow> fst (try_block ev m link fmt) = Some d"
  by (simp add: try_block_def Let_def split: prod.splits sum.splits option.splits)

lemma try_block_no_dir: "mkdtemp ev = Inl e \<Longrightarrow> try_block ev m link fmt = (None, QUEUED, [CreateTempDir], Some e)"
  by (simp add: try_block_def)

lemma handle_download_eq:
  assumes "try_block ev m link fmt = (Some d, reached, acts, failure)"
  shows "handle_download ev m tid uid link fmt =
     \<lparr>o_task =
        (case failure of
           None \<Rightarrow> \<lparr>task_id = tid, user_id = uid, url = link, mode = fmt, status = reached,
                     error_message = None\<rparr>
         | Some error \<Rightarrow> \<lparr>task_id = tid, user_id = uid, url = link, mode = fmt, status = FAILED,
                     error_message = Some (str_exn error)\<rparr>),
      o_actions =
        acts @ (case failure of None \<Rightarrow> [] | Some error \<Rightarrow> [Notify (to_user_message (py_lower ev) error)])
             @ (if d \<noteq> [] then [RemoveTree d] else []),
      o_dirs = (if d \<noteq> [] \<and> rmtree ev d = None then dirs0 ev - {d} else insert d (dirs0 ev)),
      o_raised = (case failure of None \<Rightarrow> None | Some error \<Rightarrow> notify_error ev)\<rparr>"
  using assms
  by (cases failure; cases "rmtree ev d"; cases "d = []")
    (simp_all add: handle_download_def Let_def cleanup_temp_dir_def)

lemma try_block_too_big:
  assumes "mkdtemp ev = Inr d" and "disk_ok ev" and "announce ev = None"
    and "download_content ev link d fmt = (acts, Inr (Some filepath))"
    and "filepath \<noteq> []" and "path_exists ev filepath"
    and "get_file_size_mb ev filepath > real_of_int m"
  shows "try_block ev m link fmt =
           (Some d, DOWNLOADING, [CreateTempDir, Announce] @ acts, Some (Exn (too_big_msg m)))"
  using assms by (simp add: try_block_def)

lemma try_block_not_found:
  assumes "mkdtemp ev = Inr d" and "disk_ok ev" and "announce ev = None"
    and "download_content ev link d fmt = (acts, Inr None)"
  shows "try_block ev m link fmt =
           (Some d, DOWNLOADING, [CreateTempDir, Announce] @ acts, Some (Exn not_found_msg))"
  using assms by (simp add: try_block_def)

lemma try_attempts_no_send:
  "\<not> list_ex is_send (fst (try_attempts ev temp_dir is_audio allowed_ext plan last_error))"
proof (induction plan arbitrary: last_error)
  case Nil
  show ?case by simp
next
  case (Cons c plan)
  obtain u f where c: "c = (u, f)" by (cases c)
  show ?case
  proof (cases "download_with_ytdlp ev u temp_dir is_audio allowed_ext f")
    case (Inr result)
    then show ?thesis by (simp add: c)
  next
    case (Inl error)
    obtain acts fin where t:
      "try_attempts ev temp_dir is_audio allowed_ext plan (Some error) = (acts, fin)"
      by (cases "try_attempts ev temp_dir is_audio allowed_ext plan (Some error)")
    from Cons.IH[of "Some error"] t have "\<not> list_ex is_send acts" by simp
    then show ?thesis by (simp add: c Inl t)
  qed
qed

lemma html_no_send: "\<not> list_ex is_send (fst (download_tiktok_direct_from_html ev link temp_dir))"
  by (simp add: download_tiktok_direct_from_html_def Let_def
      split: sum.splits prod.splits option.splits)

lemma download_content_tiktok:
  assumes "detect_platform (py_lower ev) (direct_re ev) link = TIKTOK"
  shows "download_content ev link temp_dir fmt =
     (case try_attempts ev temp_dir (fmt = AUDIO) (allowed_for fmt)
             (build_tiktok_attempt_plan (py_digit ev) (tiktok_download_url ev link)) None of
        (acts, Returned result) \<Rightarrow> (acts, Inr result)
      | (acts, Raised error) \<Rightarrow> (acts, Inl error)
      | (acts, Exhausted last_error) \<Rightarrow>
          (case (if fmt \<noteq> AUDIO
                 then download_tiktok_direct_from_html ev (tiktok_download_url ev link) temp_dir
                 else ([], None)) of
             (extra, direct_file) \<Rightarrow>
               if direct_file \<noteq> None \<and> direct_file \<noteq> Some []
               then (acts @ extra, Inr direct_file)
               else (case last_error of
                       Some error \<Rightarrow> (acts @ extra, Inl error)
                     | None \<Rightarrow> (acts @ extra, Inr None))))"
  using assms
  by (simp add: download_content_def tiktok_download_url_def allowed_for_def Let_def
      split: prod.splits loop_end.splits option.splits)

lemma download_content_no_send: "\<not> list_ex is_send (fst (download_content ev link temp_dir fmt))"
proof -
  let ?p = "detect_platform (py_lower ev) (direct_re ev) link"
  consider (direct) "?p = DIRECT" | (other) "?p \<noteq> DIRECT" "?p \<noteq> TIKTOK" | (tiktok) "?p = TIKTOK"
    by auto
  then show ?thesis
  proof cases
    case direct
    then show ?thesis by (simp add: download_content_def Let_def split: option.splits)
  next
    case other
    then show ?thesis by (simp add: download_content_def Let_def)
  next
    case tiktok
    obtain acts fin where t:
      "try_attempts ev temp_dir (fmt = AUDIO) (allowed_for fmt)
         (build_tiktok_attempt_plan (py_digit ev) (tiktok_download_url ev link)) None = (acts, fin)"
      by (cases "try_attempts ev temp_dir (fmt = AUDIO) (allowed_for fmt)
         (build_tiktok_attempt_plan (py_digit ev) (tiktok_download_url ev link)) None")
    have na: "\<not> list_ex is_send acts"
      using try_attempts_no_send[of ev temp_dir "fmt = AUDIO" "allowed_for fmt"
          "build_tiktok_attempt_plan (py_digit ev) (tiktok_download_url ev link)" None] t by simp
    obtain extra df where h:
      "(if fmt \<noteq> AUDIO
        then download_tiktok_direct_from_html ev (tiktok_download_url ev link) temp_dir
        else ([], None)) = (extra, df)"
      by (cases "if fmt \<noteq> AUDIO
        then download_tiktok_direct_from_html ev (tiktok_download_url ev link) temp_dir
        else ([], None)")
    have nm: "\<not> list_ex is_send extra"
      using html_no_send[of ev "tiktok_download_url ev link" temp_dir] h
      by (cases "fmt = AUDIO") auto
    show ?thesis
      using na nm
      by (cases fin; cases "last_error_of ev temp_dir fmt []")
        (simp_all add: download_content_tiktok[OF tiktok] t h split: option.splits)
  qed
qed

subsection \<open>Concrete executions\<close>

lemma try_block_sent:
  assumes "mkdtemp ev = Inr d" and "disk_ok ev" and "announce ev = None"
    and "download_content ev link d fmt = (acts, Inr (Some filepath))"
    and "filepath \<noteq> []" and "path_exists ev filepath"
    and "\<not> get_file_size_mb ev filepath > real_of_int m"
    and "send_media ev = None"
  shows "try_block ev m link fmt =
           (Some d, COMPLETED, [CreateTempDir, Announce] @ acts @ [SendMedia filepath], None)"
  using assms by (simp add: try_block_def send_file_def)

lemma demo_platform: "detect_platform demo_lower (\<lambda>link. False) demo_link = YOUTUBE"
  by (simp add: detect_platform_def demo_link_def Let_def demo_lower_def demo_lower_cp_def ascii_def)

lemma demo_listing:
  "matching_files demo_lower VIDEO_EXTENSIONS [leftover, clip] = [clip]"
  "find_latest_file demo_lower demo_dir [leftover, clip] VIDEO_EXTENSIONS
     = Some (path_join demo_dir (d_name clip))"
  "find_latest_file demo_lower demo_dir [] VIDEO_EXTENSIONS = None"
  by (simp_all add: matching_files_def find_latest_file_def Let_def VIDEO_EXTENSIONS_def
      leftover_def clip_def path_suffix_def demo_lower_def demo_lower_cp_def ascii_def)

lemma good_download:
  "download_content good_env demo_link demo_dir VIDEO
     = ([Extract demo_link False], Inr (Some (path_join demo_dir (d_name clip))))"
  by (simp add: download_content_def Let_def good_env_def demo_platform
      download_with_ytdlp_def demo_listing VIDEO_def AUDIO_def ascii_def)

lemma empty_download:
  "download_content empty_env demo_link demo_dir VIDEO = ([Extract demo_link False], Inr None)"
  by (simp add: download_content_def Let_def empty_env_def good_env_def demo_platform
      download_with_ytdlp_def demo_listing VIDEO_def AUDIO_def ascii_def)

text \<open>
  Claim C9, as amended. When the workspace was created, the last action of the
  execution is the removal of the workspace, whatever happened before it, and the
  directory no longer exists at the return if that removal did not fail. A failure of
  the removal is dropped and leaves the directory in place.
\<close>

theorem workspace_removed_unless_removal_fails:
  assumes "mkdtemp ev = Inr d" and "d \<noteq> []"
  shows "o_actions (handle_download ev m tid uid link fmt) \<noteq> []
       \<and> last (o_actions (handle_download ev m tid uid link fmt)) = RemoveTree d
       \<and> (rmtree ev d = None \<longrightarrow> d \<notin> o_dirs (handle_download ev m tid uid link fmt))
       \<and> (rmtree ev d \<noteq> None \<longrightarrow> d \<in> o_dirs (handle_download ev m tid uid link fmt))"
proof -
  obtain reached acts failure where
    tb: "try_block ev m link fmt = (Some d, reached, acts, failure)"
    using try_block_dir[OF assms(1), of m link fmt]
    by (cases "try_block ev m link fmt") auto
  show ?thesis
    using assms(2) by (simp add: handle_download_eq[OF tb])
qed

text \<open>
  Claim C9 as first stated fails: with a removal that raises, the task completes and the
  workspace is still there.
\<close>

lemma stuck_run:
  "status (o_task (handle_download stuck_env 2048 1 7 demo_link VIDEO)) = COMPLETED"
  "demo_dir \<in> o_dirs (handle_download stuck_env 2048 1 7 demo_link VIDEO)"
proof -
  have dc: "download_content stuck_env demo_link demo_dir VIDEO
     = ([Extract demo_link False], Inr (Some (path_join demo_dir (d_name clip))))"
    by (simp add: download_content_def Let_def stuck_env_def good_env_def demo_platform
      download_with_ytdlp_def demo_listing VIDEO_def AUDIO_def ascii_def)
  have tb: "try_block stuck_env 2048 demo_link VIDEO
     = (Some demo_dir, COMPLETED,
        [CreateTempDir, Announce] @ [Extract demo_link False]
          @ [SendMedia (path_join demo_dir (d_name clip))], None)"
    by (rule try_block_sent[OF _ _ _ dc])
      (simp_all add: stuck_env_def good_env_def path_join_def get_file_size_mb_def)
  show "status (o_task (handle_download stuck_env 2048 1 7 demo_link VIDEO)) = COMPLETED"
    by (simp add: handle_download_eq[OF tb])
  show "demo_dir \<in> o_dirs (handle_download stuck_env 2048 1 7 demo_link VIDEO)"
    unfolding handle_download_eq[OF tb] by (simp add: stuck_env_def good_env_def)
qed

theorem workspace_cleanup_counterexample:
  "\<not> (\<forall>ev m tid uid link fmt d.
         mkdtemp ev = Inr d \<longrightarrow> d \<notin> o_dirs (handle_download ev m tid uid link fmt))"
proof
  assume a: "\<forall>ev m tid uid link fmt d.
         mkdtemp ev = Inr d \<longrightarrow> d \<notin> o_dirs (handle_download ev m tid uid link fmt)"
  have "mkdtemp stuck_env = Inr demo_dir" by (simp add: stuck_env_def good_env_def)
  with a have "demo_dir \<notin> o_dirs (handle_download stuck_env 2048 1 7 demo_link VIDEO)"
    by blast
  with stuck_run(2) show False by simp
qed

text \<open>Claim C9 on an execution whose removal works and on one whose removal fails.\<close>

theorem workspace_removed_unless_removal_fails_witness:
  "mkdtemp good_env = Inr demo_dir \<and> demo_dir \<noteq> [] \<and> rmtree good_env demo_dir = None
   \<and> last (o_actions (handle_download good_env 2048 1 7 demo_link VIDEO)) = RemoveTree demo_dir
   \<and> demo_dir \<notin> o_dirs (handle_download good_env 2048 1 7 demo_link VIDEO)
   \<and> mkdtemp stuck_env = Inr demo_dir \<and> rmtree stuck_env demo_dir \<noteq> None
   \<and> last (o_actions (handle_download stuck_env 2048 1 7 demo_link VIDEO)) = RemoveTree demo_dir
   \<and> demo_dir \<in> o_dirs (handle_download stuck_env 2048 1 7 demo_link VIDEO)"
proof -
  have g: "mkdtemp good_env = Inr demo_dir" "rmtree good_env demo_dir = None"
    by (simp_all add: good_env_def)
  have s: "mkdtemp stuck_env = Inr demo_dir" "rmtree stuck_env demo_dir \<noteq> None"
    by (simp_all add: stuck_env_def good_env_def)
  have n: "demo_dir \<noteq> []" by (simp add: demo_dir_def ascii_def)
  show ?thesis
    using g s n
      workspace_removed_unless_removal_fails[OF g(1) n, of 2048 1 7 demo_link VIDEO]
      workspace_removed_unless_removal_fails[OF s(1) n, of 2048 1 7 demo_link VIDEO]
    by simp
qed

section \<open>Proofs: the size gate\<close>

lemma str_in_set: "str_in needle hay \<Longrightarrow> set needle \<subseteq> set hay"
  by (auto simp add: str_in_iff occurs_in_def)

lemma dec_digits_set: "c \<in> set (dec_digits n) \<Longrightarrow> 48 \<le> c \<and> c \<le> 57"
proof (induction n arbitrary: c rule: dec_digits.induct)
  case (1 n)
  show ?case
  proof (cases "n < 10")
    case True
    with "1.prems" show ?thesis by (subst (asm) dec_digits.simps) simp
  next
    case False
    have m: "n mod 10 < 10" by simp
    from "1.prems" False have "c \<in> set (dec_digits (n div 10)) \<or> c = 48 + n mod 10"
      by (subst (asm) dec_digits.simps) auto
    with "1.IH"[OF False] m show ?thesis by auto
  qed
qed

lemma str_int_set: "c \<in> set (str_int i) \<Longrightarrow> c = 45 \<or> (48 \<le> c \<and> c \<le> 57)"
  using dec_digits_set by (auto simp add: str_int_def split: if_splits)

lemma too_big_letters:
  assumes "c \<in> set (too_big_lower m)"
  shows "c \<in> {1092, 1072, 1081, 1083, 32, 1073, 1086, 1100, 1096, 1077, 1080, 1084, 1090,
              116, 101, 108, 103, 114, 97, 109, 40, 41, 46, 45}
         \<or> (48 \<le> c \<and> c \<le> 57)"
proof -
  from assms consider
      "c \<in> set [1092, 1072, 1081, 1083, 32, 1073, 1086, 1083, 1100, 1096, 1077, 32, 1083,
                 1080, 1084, 1080, 1090, 1072, 32]"
    | "c \<in> set (ascii ''telegram ('')" | "c \<in> set (str_int m)"
    | "c \<in> set [32, 1084, 1073, 41, 46]"
    unfolding too_big_lower_def by auto
  then show ?thesis
  proof cases
    case 1
    then show ?thesis by auto
  next
    case 2
    then show ?thesis by (auto simp add: ascii_def)
  next
    case 3
    from str_int_set[OF this] show ?thesis by auto
  next
    case 4
    then show ?thesis by auto
  qed
qed

lemma too_big_lacks:
  assumes "k \<in> set token"
    and "k \<notin> {1092, 1072, 1081, 1083, 32, 1073, 1086, 1100, 1096, 1077, 1080, 1084, 1090,
              116, 101, 108, 103, 114, 97, 109, 40, 41, 46, 45}"
    and "\<not> (48 \<le> k \<and> k \<le> 57)"
  shows "\<not> str_in token (too_big_lower m)"
proof
  assume "str_in token (too_big_lower m)"
  from str_in_set[OF this] assms(1) have "k \<in> set (too_big_lower m)" by auto
  from too_big_letters[OF this] assms(2,3) show False by blast
qed

lemma too_big_is_generic:
  assumes "lower (too_big_msg m) = too_big_lower m"
  shows "to_user_message lower (Exn (too_big_msg m))
           = Generic (take 350 (html_escape (too_big_msg m)))"
proof -
  have "\<not> str_in (ascii ''drm protected'') (too_big_lower m)"
    by (rule too_big_lacks[of 100]) (simp_all add: ascii_def)
  moreover have "\<not> str_in (ascii ''unsupported'') (too_big_lower m)"
    by (rule too_big_lacks[of 117]) (simp_all add: ascii_def)
  moreover have "\<not> str_in (ascii ''too large'') (too_big_lower m)"
    by (rule too_big_lacks[of 111]) (simp_all add: ascii_def)
  moreover have "\<not> str_in razmer (too_big_lower m)"
    by (rule too_big_lacks[of 1079]) (simp_all add: razmer_def)
  moreover have "\<not> str_in (ascii ''max_filesize'') (too_big_lower m)"
    by (rule too_big_lacks[of 120]) (simp_all add: ascii_def)
  moreover have "\<not> str_in (ascii ''timeout'') (too_big_lower m)"
    by (rule too_big_lacks[of 105]) (simp_all add: ascii_def)
  moreover have "\<not> str_in (ascii ''timed out'') (too_big_lower m)"
    by (rule too_big_lacks[of 105]) (simp_all add: ascii_def)
  moreover have "\<not> str_in (ascii ''disk'') (too_big_lower m)"
    by (rule too_big_lacks[of 100]) (simp_all add: ascii_def)
  moreover have "\<not> str_in (ascii ''space'') (too_big_lower m)"
    by (rule too_big_lacks[of 115]) (simp_all add: ascii_def)
  moreover have "\<not> str_in (ascii ''unable to extract webpage video data'') (too_big_lower m)"
    by (rule too_big_lacks[of 117]) (simp_all add: ascii_def)
  moreover have "\<not> str_in (ascii ''video not available'') (too_big_lower m)"
    by (rule too_big_lacks[of 118]) (simp_all add: ascii_def)
  moreover have "\<not> str_in (ascii ''private'') (too_big_lower m)"
    by (rule too_big_lacks[of 112]) (simp_all add: ascii_def)
  ultimately show ?thesis
    by (simp add: to_user_message_def Let_def assms)
qed

text \<open>
  Claim C2. When the selected file exists and is larger than the ceiling, the task ends
  \<open>FAILED\<close> with the message of the size gate and no file is sent: the actions are those
  of the download, the notification of the error and the cleanup. The notification,
  however, is the generic one for every value of the ceiling, not the one of the
  category "too large": the text of the size gate holds none of the three tokens that
  \<open>to_user_message\<close> tests for that category. All that is asked of \<open>str.lower()\<close> for
  this last part is that it lowers the four capitals of that text and leaves the rest of
  it as it is, as Python's does.
\<close>

theorem size_gate_fails_task_with_generic_notice:
  assumes "mkdtemp ev = Inr d" and "disk_ok ev" and "announce ev = None"
    and "download_content ev link d fmt = (acts, Inr (Some filepath))"
    and "filepath \<noteq> []" and "path_exists ev filepath"
    and "get_file_size_mb ev filepath > real_of_int m"
  shows "status (o_task (handle_download ev m tid uid link fmt)) = FAILED
       \<and> error_message (o_task (handle_download ev m tid uid link fmt)) = Some (too_big_msg m)
       \<and> \<not> list_ex is_send (o_actions (handle_download ev m tid uid link fmt))
       \<and> o_actions (handle_download ev m tid uid link fmt)
           = [CreateTempDir, Announce] @ acts
             @ [Notify (to_user_message (py_lower ev) (Exn (too_big_msg m)))]
             @ (if d \<noteq> [] then [RemoveTree d] else [])
       \<and> (py_lower ev (too_big_msg m) = too_big_lower m \<longrightarrow>
            to_user_message (py_lower ev) (Exn (too_big_msg m))
              = Generic (take 350 (html_escape (too_big_msg m)))
            \<and> to_user_message (py_lower ev) (Exn (too_big_msg m)) \<noteq> TooLarge
            \<and> o_actions (handle_download ev m tid uid link fmt)
                = [CreateTempDir, Announce] @ acts
                  @ [Notify (Generic (take 350 (html_escape (too_big_msg m))))]
                  @ (if d \<noteq> [] then [RemoveTree d] else []))"
proof -
  note tb = try_block_too_big[OF assms(1-7)]
  have ns: "\<not> list_ex is_send acts"
    using download_content_no_send[of ev link d fmt] assms(4) by simp
  have shape: "o_actions (handle_download ev m tid uid link fmt)
           = [CreateTempDir, Announce] @ acts
             @ [Notify (to_user_message (py_lower ev) (Exn (too_big_msg m)))]
             @ (if d \<noteq> [] then [RemoveTree d] else [])"
    by (simp add: handle_download_eq[OF tb])
  have st: "status (o_task (handle_download ev m tid uid link fmt)) = FAILED"
    and em: "error_message (o_task (handle_download ev m tid uid link fmt))
               = Some (too_big_msg m)"
    by (simp_all add: handle_download_eq[OF tb])
  have sent: "\<not> list_ex is_send (o_actions (handle_download ev m tid uid link fmt))"
    using ns by (cases "to_user_message (py_lower ev) (Exn (too_big_msg m))") (simp_all add: shape)
  have gen: "to_user_message (py_lower ev) (Exn (too_big_msg m))
              = Generic (take 350 (html_escape (too_big_msg m)))
            \<and> to_user_message (py_lower ev) (Exn (too_big_msg m)) \<noteq> TooLarge
            \<and> o_actions (handle_download ev m tid uid link fmt)
                = [CreateTempDir, Announce] @ acts
                  @ [Notify (Generic (take 350 (html_escape (too_big_msg m))))]
                  @ (if d \<noteq> [] then [RemoveTree d] else [])"
    if l: "py_lower ev (too_big_msg m) = too_big_lower m"
    using too_big_is_generic[of "py_lower ev" m, OF l] shape by simp
  from st em sent shape gen show ?thesis by blast
qed

lemma too_big_2048: "take 350 (html_escape (too_big_msg 2048)) = too_big_msg 2048"
  by code_simp

text \<open>The sample library lowers the text of the size gate as stated, whatever the ceiling.\<close>

lemma demo_lower_too_big: "demo_lower (too_big_msg m) = too_big_lower m"
proof -
  have "demo_lower_cp c = c" if "c \<in> set (str_int m)" for c
    using str_int_set[OF that] by (auto simp add: demo_lower_cp_def)
  then have "map demo_lower_cp (str_int m) = str_int m" by (rule map_idI)
  then show ?thesis
    by (simp add: demo_lower_def too_big_msg_def too_big_lower_def ascii_def demo_lower_cp_def)
qed

lemma big_download:
  "download_content big_env demo_link demo_dir VIDEO
     = ([Extract demo_link False], Inr (Some (path_join demo_dir (d_name clip))))"
  by (simp add: download_content_def Let_def big_env_def good_env_def demo_platform
      download_with_ytdlp_def demo_listing VIDEO_def AUDIO_def ascii_def)

text \<open>
  Claim C2 at the default ceiling of 2048 MB and a file of 2049 MiB: the task fails and
  nothing is sent, and the user is shown the generic notice.
\<close>

theorem size_gate_fails_task_with_generic_notice_witness:
  "mkdtemp big_env = Inr demo_dir
   \<and> get_file_size_mb big_env (path_join demo_dir (d_name clip)) > real_of_int 2048
   \<and> status (o_task (handle_download big_env 2048 1 7 demo_link VIDEO)) = FAILED
   \<and> \<not> list_ex is_send (o_actions (handle_download big_env 2048 1 7 demo_link VIDEO))
   \<and> o_actions (handle_download big_env 2048 1 7 demo_link VIDEO)
       = [CreateTempDir, Announce, Extract demo_link False,
          Notify (Generic (too_big_msg 2048)), RemoveTree demo_dir]
   \<and> py_lower big_env (too_big_msg 2048) = too_big_lower 2048
   \<and> to_user_message (py_lower big_env) (Exn (too_big_msg 2048)) \<noteq> TooLarge"
proof -
  have l: "py_lower big_env (too_big_msg 2048) = too_big_lower 2048"
    by (simp add: big_env_def good_env_def demo_lower_too_big)
  have e: "mkdtemp big_env = Inr demo_dir" "disk_ok big_env" "announce big_env = None"
    "path_join demo_dir (d_name clip) \<noteq> []"
    "path_exists big_env (path_join demo_dir (d_name clip))"
    by (simp_all add: big_env_def good_env_def path_join_def)
  have s: "get_file_size_mb big_env (path_join demo_dir (d_name clip)) > real_of_int 2048"
    by (simp add: get_file_size_mb_def big_env_def good_env_def)
  have n: "demo_dir \<noteq> []" by (simp add: demo_dir_def ascii_def)
  show ?thesis
    using e(1) s n l
      size_gate_fails_task_with_generic_notice[OF e(1) e(2) e(3) big_download e(4) e(5) s,
        of 1 7]
    by (simp add: too_big_2048)
qed

section \<open>Proofs: the candidates of the flaky platform\<close>

lemma last_error_step:
  assumes "attempt ev temp_dir fmt c = Inl error"
  shows "(case c # tw of [] \<Rightarrow> last_error | _ \<Rightarrow> last_error_of ev temp_dir fmt (c # tw))
       = (case tw of [] \<Rightarrow> Some error | _ \<Rightarrow> last_error_of ev temp_dir fmt tw)"
  using assms by (cases tw) (simp_all add: last_error_of_def)

lemma try_attempts_spec:
  "try_attempts ev temp_dir (fmt = AUDIO) (allowed_for fmt) plan last_error =
     (map extract_of (takeWhile (fails_recoverably ev temp_dir fmt) plan
                      @ take 1 (dropWhile (fails_recoverably ev temp_dir fmt) plan)),
      case dropWhile (fails_recoverably ev temp_dir fmt) plan of
        [] \<Rightarrow> Exhausted (case takeWhile (fails_recoverably ev temp_dir fmt) plan of
                          [] \<Rightarrow> last_error
                        | _ \<Rightarrow> last_error_of ev temp_dir fmt
                                (takeWhile (fails_recoverably ev temp_dir fmt) plan))
      | c # _ \<Rightarrow> (case attempt ev temp_dir fmt c of
                    Inr result \<Rightarrow> Returned result
                  | Inl error \<Rightarrow> Raised error))"
proof (induction plan arbitrary: last_error)
  case Nil
  show ?case by simp
next
  case (Cons c plan)
  obtain u f where c: "c = (u, f)" by (cases c)
  show ?case
  proof (cases "attempt ev temp_dir fmt c")
    case (Inr result)
    then have "\<not> fails_recoverably ev temp_dir fmt c" by (simp add: fails_recoverably_def)
    with Inr show ?thesis by (simp add: c attempt_def extract_of_def)
  next
    case (Inl error)
    show ?thesis
    proof (cases "is_tiktok_extraction_error (py_lower ev) error")
      case False
      with Inl have "\<not> fails_recoverably ev temp_dir fmt c" by (simp add: fails_recoverably_def)
      with Inl False show ?thesis by (simp add: c attempt_def extract_of_def)
    next
      case True
      with Inl have r: "fails_recoverably ev temp_dir fmt c" by (simp add: fails_recoverably_def)
      let ?P = "fails_recoverably ev temp_dir fmt"
      have le: "last_error_of ev temp_dir fmt (c # takeWhile ?P plan)
                  = (case takeWhile ?P plan of
                       [] \<Rightarrow> Some error
                     | _ \<Rightarrow> last_error_of ev temp_dir fmt (takeWhile ?P plan))"
        using last_error_step[OF Inl, where tw = "takeWhile ?P plan" and last_error = None]
        by simp
      from Inl have a: "download_with_ytdlp ev u temp_dir (fmt = AUDIO) (allowed_for fmt) f
                          = Inl error"
        by (simp add: c attempt_def)
      have unroll:
        "try_attempts ev temp_dir (fmt = AUDIO) (allowed_for fmt) (c # plan) last_error
          = (Extract u f
               # fst (try_attempts ev temp_dir (fmt = AUDIO) (allowed_for fmt) plan (Some error)),
             snd (try_attempts ev temp_dir (fmt = AUDIO) (allowed_for fmt) plan (Some error)))"
        using a True by (simp add: c case_prod_beta)
      have tw: "takeWhile ?P (c # plan) = c # takeWhile ?P plan"
        and dw: "dropWhile ?P (c # plan) = dropWhile ?P plan"
        using r by simp_all
      have ex: "extract_of c = Extract u f" by (simp add: c extract_of_def)
      show ?thesis
      proof (cases "dropWhile ?P plan")
        case Nil
        show ?thesis
          unfolding unroll tw dw Cons.IH[of "Some error"] Nil
          by (simp add: le ex)
      next
        case (Cons d ds)
        show ?thesis
          unfolding unroll tw dw Cons.IH[of "Some error"] Cons
          by (simp add: ex)
      qed
    qed
  qed
qed

lemma tiktok_link_nonempty: "detect_platform lower re link = TIKTOK \<Longrightarrow> link \<noteq> []"
  by (auto simp add: detect_platform_def)

lemma tiktok_plan_nonempty:
  assumes "link \<noteq> []"
  shows "tiktok_plan ev link \<noteq> []"
proof -
  have "tiktok_download_url ev link \<noteq> []"
    using assms by (simp add: tiktok_download_url_def split: option.splits)
  then show ?thesis
    by (simp add: tiktok_plan_def plan_shape split: option.splits)
qed

lemma html_shape:
  "fst (download_tiktok_direct_from_html ev link temp_dir) \<noteq> []
   \<and> hd (fst (download_tiktok_direct_from_html ev link temp_dir)) = HttpGet link
   \<and> snd (download_tiktok_direct_from_html ev link temp_dir) \<noteq> Some []"
  by (simp add: download_tiktok_direct_from_html_def Let_def path_join_def
      split: sum.splits prod.splits option.splits)

lemma last_error_recoverable:
  assumes "plan \<noteq> []" and "\<forall>c \<in> set plan. fails_recoverably ev temp_dir fmt c"
  shows "\<exists>error. last_error_of ev temp_dir fmt plan = Some error
                 \<and> is_tiktok_extraction_error (py_lower ev) error"
proof -
  from assms have "fails_recoverably ev temp_dir fmt (last plan)" by simp
  then obtain error where "attempt ev temp_dir fmt (last plan) = Inl error"
    and "is_tiktok_extraction_error (py_lower ev) error"
    by (auto simp add: fails_recoverably_def split: sum.splits)
  with assms(1) show ?thesis
    by (cases plan) (simp_all add: last_error_of_def)
qed

lemma tiktok_first_other:
  assumes "detect_platform (py_lower ev) (direct_re ev) link = TIKTOK"
    and "untried ev temp_dir fmt link = c # cs"
  shows "download_content ev link temp_dir fmt
           = (map extract_of (tried ev temp_dir fmt link @ [c]), attempt ev temp_dir fmt c)"
  using assms(2)
  by (cases "attempt ev temp_dir fmt c")
    (simp_all add: download_content_tiktok[OF assms(1)] try_attempts_spec untried_def tried_def
      tiktok_plan_def)

lemma tiktok_exhausted:
  assumes "detect_platform (py_lower ev) (direct_re ev) link = TIKTOK"
    and "untried ev temp_dir fmt link = []"
    and "last_error_of ev temp_dir fmt (tiktok_plan ev link) = Some error"
  shows "download_content ev link temp_dir fmt
           = (case (if fmt \<noteq> AUDIO
                    then download_tiktok_direct_from_html ev (tiktok_download_url ev link)
                           temp_dir
                    else ([], None)) of
                (extra, direct_file) \<Rightarrow>
                  if direct_file \<noteq> None \<and> direct_file \<noteq> Some []
                  then (map extract_of (tiktok_plan ev link) @ extra, Inr direct_file)
                  else (map extract_of (tiktok_plan ev link) @ extra, Inl error))"
proof -
  let ?P = "fails_recoverably ev temp_dir fmt"
  have dw: "dropWhile ?P (tiktok_plan ev link) = []"
    using assms(2) by (simp add: untried_def)
  then have tw: "takeWhile ?P (tiktok_plan ev link) = tiktok_plan ev link" by simp
  from assms(3) obtain p ps where ps: "tiktok_plan ev link = p # ps"
    by (cases "tiktok_plan ev link") (auto simp add: last_error_of_def)
  have ta: "try_attempts ev temp_dir (fmt = AUDIO) (allowed_for fmt) (tiktok_plan ev link) None
              = (map extract_of (tiktok_plan ev link), Exhausted (Some error))"
    unfolding try_attempts_spec dw tw using assms(3) by (simp add: ps)
  show ?thesis
  proof (cases "fmt = AUDIO")
    case True
    show ?thesis
      unfolding download_content_tiktok[OF assms(1)] tiktok_plan_def[symmetric] ta
      using True by simp
  next
    case False
    obtain extra df where
      h: "download_tiktok_direct_from_html ev (tiktok_download_url ev link) temp_dir = (extra, df)"
      by (cases "download_tiktok_direct_from_html ev (tiktok_download_url ev link) temp_dir")
    show ?thesis
      unfolding download_content_tiktok[OF assms(1)] tiktok_plan_def[symmetric] ta
      using False by (simp add: h)
  qed
qed

text \<open>
  Claim C3. For a link of the flaky platform, whatever the mode: the plan is not empty
  and is tried in its order. The candidates before the first one that does not fail
  recoverably are all tried and all fail recoverably; that first one is tried too and
  its outcome is the outcome of the fetch, a returned path or a raised error that the
  classifier does not mark recoverable, with no candidate and no page request after it.
  When every candidate fails recoverably, the last error is a recoverable one; in mode
  \<open>audio\<close> it is raised after the last candidate and no page is requested; in any
  other mode, that is \<open>video\<close> for a task that was admitted, the page of the download
  URL is requested next, and the fetch returns the file scraped from it, or raises the
  last error when the scrape yields nothing.
\<close>

theorem tiktok_candidates_tried_in_order:
  assumes "detect_platform (py_lower ev) (direct_re ev) link = TIKTOK"
  shows "tiktok_plan ev link \<noteq> []
       \<and> tried ev temp_dir fmt link @ untried ev temp_dir fmt link = tiktok_plan ev link
       \<and> (\<forall>c \<in> set (tried ev temp_dir fmt link). fails_recoverably ev temp_dir fmt c)
       \<and> (\<forall>c cs. untried ev temp_dir fmt link = c # cs \<longrightarrow>
             \<not> fails_recoverably ev temp_dir fmt c
             \<and> download_content ev link temp_dir fmt
                 = (map extract_of (tried ev temp_dir fmt link @ [c]),
                    attempt ev temp_dir fmt c))
       \<and> (untried ev temp_dir fmt link = [] \<longrightarrow>
             (\<exists>error.
                last_error_of ev temp_dir fmt (tiktok_plan ev link) = Some error
                \<and> is_tiktok_extraction_error (py_lower ev) error
                \<and> (fmt = AUDIO \<longrightarrow>
                     download_content ev link temp_dir fmt
                       = (map extract_of (tiktok_plan ev link), Inl error))
                \<and> (fmt \<noteq> AUDIO \<longrightarrow>
                     hd (fst (download_tiktok_direct_from_html ev
                                (tiktok_download_url ev link) temp_dir))
                       = HttpGet (tiktok_download_url ev link)
                     \<and> download_content ev link temp_dir fmt
                         = (map extract_of (tiktok_plan ev link)
                              @ fst (download_tiktok_direct_from_html ev
                                       (tiktok_download_url ev link) temp_dir),
                            case snd (download_tiktok_direct_from_html ev
                                       (tiktok_download_url ev link) temp_dir) of
                              None \<Rightarrow> Inl error
                            | Some filepath \<Rightarrow> Inr (Some filepath)))))"
proof (intro conjI allI impI ballI)
  show "tiktok_plan ev link \<noteq> []"
    using tiktok_link_nonempty[OF assms(1)] by (rule tiktok_plan_nonempty)
next
  show "tried ev temp_dir fmt link @ untried ev temp_dir fmt link = tiktok_plan ev link"
    by (simp add: tried_def untried_def)
next
  fix c assume "c \<in> set (tried ev temp_dir fmt link)"
  then show "fails_recoverably ev temp_dir fmt c"
    by (auto simp add: tried_def dest: set_takeWhileD)
next
  fix c cs assume u: "untried ev temp_dir fmt link = c # cs"
  have "\<not> fails_recoverably ev temp_dir fmt (hd (untried ev temp_dir fmt link))"
    unfolding untried_def by (rule hd_dropWhile) (use u in \<open>simp add: untried_def\<close>)
  with u show "\<not> fails_recoverably ev temp_dir fmt c" by simp
next
  fix c cs assume u: "untried ev temp_dir fmt link = c # cs"
  show "download_content ev link temp_dir fmt
          = (map extract_of (tried ev temp_dir fmt link @ [c]), attempt ev temp_dir fmt c)"
    by (rule tiktok_first_other[OF assms(1) u])
next
  assume u: "untried ev temp_dir fmt link = []"
  have all: "\<forall>c \<in> set (tiktok_plan ev link). fails_recoverably ev temp_dir fmt c"
    using u by (simp add: untried_def)
  have ne: "tiktok_plan ev link \<noteq> []"
    using tiktok_link_nonempty[OF assms(1)] by (rule tiktok_plan_nonempty)
  from last_error_recoverable[OF ne all] obtain error where
    le: "last_error_of ev temp_dir fmt (tiktok_plan ev link) = Some error"
    and re: "is_tiktok_extraction_error (py_lower ev) error" by blast
  note ex = tiktok_exhausted[OF assms(1) u le]
  note hs = html_shape[of ev "tiktok_download_url ev link" temp_dir]
  have audio: "fmt = AUDIO \<longrightarrow>
      download_content ev link temp_dir fmt = (map extract_of (tiktok_plan ev link), Inl error)"
  proof
    assume "fmt = AUDIO"
    with ex show "download_content ev link temp_dir fmt
                    = (map extract_of (tiktok_plan ev link), Inl error)"
      by (simp split: if_splits)
  qed
  have video: "fmt \<noteq> AUDIO \<longrightarrow>
      hd (fst (download_tiktok_direct_from_html ev (tiktok_download_url ev link) temp_dir))
        = HttpGet (tiktok_download_url ev link)
      \<and> download_content ev link temp_dir fmt
          = (map extract_of (tiktok_plan ev link)
               @ fst (download_tiktok_direct_from_html ev (tiktok_download_url ev link) temp_dir),
             case snd (download_tiktok_direct_from_html ev
                        (tiktok_download_url ev link) temp_dir) of
               None \<Rightarrow> Inl error
             | Some filepath \<Rightarrow> Inr (Some filepath))"
  proof
    assume na: "fmt \<noteq> AUDIO"
    obtain extra df where
      h: "download_tiktok_direct_from_html ev (tiktok_download_url ev link) temp_dir = (extra, df)"
      by (cases "download_tiktok_direct_from_html ev (tiktok_download_url ev link) temp_dir")
    from hs h have d: "df \<noteq> Some []" and e: "hd extra = HttpGet (tiktok_download_url ev link)"
      by simp_all
    have "download_content ev link temp_dir fmt
            = (map extract_of (tiktok_plan ev link) @ extra,
               case df of None \<Rightarrow> Inl error | Some filepath \<Rightarrow> Inr (Some filepath))"
      unfolding ex using na d by (cases df) (simp_all add: h)
    with e show "hd (fst (download_tiktok_direct_from_html ev (tiktok_download_url ev link) temp_dir))
        = HttpGet (tiktok_download_url ev link)
      \<and> download_content ev link temp_dir fmt
          = (map extract_of (tiktok_plan ev link)
               @ fst (download_tiktok_direct_from_html ev (tiktok_download_url ev link) temp_dir),
             case snd (download_tiktok_direct_from_html ev
                        (tiktok_download_url ev link) temp_dir) of
               None \<Rightarrow> Inl error
             | Some filepath \<Rightarrow> Inr (Some filepath))"
      by (simp add: h)
  qed
  from le re audio video
  show "\<exists>error.
          last_error_of ev temp_dir fmt (tiktok_plan ev link) = Some error
          \<and> is_tiktok_extraction_error (py_lower ev) error
          \<and> (fmt = AUDIO \<longrightarrow>
               download_content ev link temp_dir fmt
                 = (map extract_of (tiktok_plan ev link), Inl error))
          \<and> (fmt \<noteq> AUDIO \<longrightarrow>
               hd (fst (download_tiktok_direct_from_html ev
                          (tiktok_download_url ev link) temp_dir))
                 = HttpGet (tiktok_download_url ev link)
               \<and> download_content ev link temp_dir fmt
                   = (map extract_of (tiktok_plan ev link)
                        @ fst (download_tiktok_direct_from_html ev
                                 (tiktok_download_url ev link) temp_dir),
                      case snd (download_tiktok_direct_from_html ev
                                 (tiktok_download_url ev link) temp_dir) of
                        None \<Rightarrow> Inl error
                      | Some filepath \<Rightarrow> Inr (Some filepath)))"
    by blast
qed

lemma demo_tiktok_platform:
  "detect_platform demo_lower (\<lambda>link. False) demo_tiktok = TIKTOK"
  by (simp add: detect_platform_def demo_tiktok_def Let_def demo_lower_def demo_lower_cp_def
      ascii_def)

lemma demo_tiktok_plan:
  "build_tiktok_attempt_plan demo_digit demo_tiktok
     = [(demo_tiktok, False), (demo_canonical, False), (demo_tiktok, True),
        (demo_canonical, True)]"
proof -
  have a: "canonicalize_tiktok_video_url demo_digit demo_tiktok = Some demo_canonical"
    by (simp add: canonicalize_tiktok_video_url_def demo_tiktok_def demo_canonical_def
        tiktok_root_def video_seg_def demo_digit_def ascii_def)
  have d: "demo_canonical \<noteq> demo_tiktok"
    by (simp add: demo_tiktok_def demo_canonical_def ascii_def)
  show ?thesis by (simp add: plan_shape a d)
qed

lemma demo_errors:
  "is_tiktok_extraction_error demo_lower transient"
  "\<not> is_tiktok_extraction_error demo_lower fatal"
  by (simp_all add: is_tiktok_extraction_error_def Let_def transient_tokens_def ascii_def
      demo_lower_def demo_lower_cp_def transient_def fatal_def)

lemma demo_links_differ: "demo_tiktok \<noteq> demo_canonical"
  by (simp add: demo_tiktok_def demo_canonical_def ascii_def)

lemma clip_listing:
  "find_latest_file demo_lower demo_dir [clip] VIDEO_EXTENSIONS
     = Some (path_join demo_dir (d_name clip))"
  by (simp add: find_latest_file_def Let_def VIDEO_EXTENSIONS_def clip_def path_suffix_def
      demo_lower_def demo_lower_cp_def ascii_def)

lemma fourth_attempts:
  "attempt fourth_env demo_dir VIDEO (demo_tiktok, False) = Inl transient"
  "attempt fourth_env demo_dir VIDEO (demo_canonical, False) = Inl transient"
  "attempt fourth_env demo_dir VIDEO (demo_tiktok, True) = Inl transient"
  "attempt fourth_env demo_dir VIDEO (demo_canonical, True)
     = Inr (Some (path_join demo_dir (d_name clip)))"
  using demo_links_differ
  by (simp_all add: attempt_def download_with_ytdlp_def fourth_env_def good_env_def
      allowed_for_def VIDEO_def AUDIO_def ascii_def clip_listing[unfolded VIDEO_def])

lemma fourth_run:
  "tried fourth_env demo_dir VIDEO demo_tiktok
     = [(demo_tiktok, False), (demo_canonical, False), (demo_tiktok, True)]"
  "untried fourth_env demo_dir VIDEO demo_tiktok = [(demo_canonical, True)]"
proof -
  have p: "tiktok_plan fourth_env demo_tiktok
     = [(demo_tiktok, False), (demo_canonical, False), (demo_tiktok, True),
        (demo_canonical, True)]"
    using demo_tiktok_plan
    by (simp add: tiktok_plan_def tiktok_download_url_def fourth_env_def good_env_def)
  have l: "py_lower fourth_env = demo_lower" by (simp add: fourth_env_def good_env_def)
  show "tried fourth_env demo_dir VIDEO demo_tiktok
     = [(demo_tiktok, False), (demo_canonical, False), (demo_tiktok, True)]"
    by (simp add: tried_def p fails_recoverably_def fourth_attempts l demo_errors)
  show "untried fourth_env demo_dir VIDEO demo_tiktok = [(demo_canonical, True)]"
    by (simp add: untried_def p fails_recoverably_def fourth_attempts l demo_errors)
qed

lemma outage_run:
  "tiktok_plan outage_env demo_tiktok
     = [(demo_tiktok, False), (demo_canonical, False), (demo_tiktok, True),
        (demo_canonical, True)]"
  "untried outage_env demo_dir fmt demo_tiktok = []"
  "last_error_of outage_env demo_dir fmt (tiktok_plan outage_env demo_tiktok) = Some transient"
  "download_tiktok_direct_from_html outage_env (tiktok_download_url outage_env demo_tiktok)
     demo_dir = ([HttpGet demo_tiktok], None)"
proof -
  show p: "tiktok_plan outage_env demo_tiktok
     = [(demo_tiktok, False), (demo_canonical, False), (demo_tiktok, True),
        (demo_canonical, True)]"
    using demo_tiktok_plan
    by (simp add: tiktok_plan_def tiktok_download_url_def outage_env_def good_env_def)
  have l: "py_lower outage_env = demo_lower" by (simp add: outage_env_def good_env_def)
  have a: "attempt outage_env demo_dir fmt c = Inl transient" for c
    by (simp add: attempt_def download_with_ytdlp_def outage_env_def good_env_def)
  show "untried outage_env demo_dir fmt demo_tiktok = []"
    by (simp add: untried_def p fails_recoverably_def a l demo_errors)
  show "last_error_of outage_env demo_dir fmt (tiktok_plan outage_env demo_tiktok)
          = Some transient"
    by (simp add: p last_error_of_def a)
  show "download_tiktok_direct_from_html outage_env (tiktok_download_url outage_env demo_tiktok)
     demo_dir = ([HttpGet demo_tiktok], None)"
    by (simp add: download_tiktok_direct_from_html_def tiktok_download_url_def outage_env_def
        good_env_def)
qed

lemma fatal_run:
  "untried fatal_env demo_dir VIDEO demo_tiktok
     = [(demo_tiktok, False), (demo_canonical, False), (demo_tiktok, True),
        (demo_canonical, True)]"
  "tried fatal_env demo_dir VIDEO demo_tiktok = []"
  "attempt fatal_env demo_dir VIDEO (demo_tiktok, False) = Inl fatal"
proof -
  have p: "tiktok_plan fatal_env demo_tiktok
     = [(demo_tiktok, False), (demo_canonical, False), (demo_tiktok, True),
        (demo_canonical, True)]"
    using demo_tiktok_plan
    by (simp add: tiktok_plan_def tiktok_download_url_def fatal_env_def good_env_def)
  have l: "py_lower fatal_env = demo_lower" by (simp add: fatal_env_def good_env_def)
  show a: "attempt fatal_env demo_dir VIDEO (demo_tiktok, False) = Inl fatal"
    by (simp add: attempt_def download_with_ytdlp_def fatal_env_def good_env_def)
  show "untried fatal_env demo_dir VIDEO demo_tiktok
     = [(demo_tiktok, False), (demo_canonical, False), (demo_tiktok, True),
        (demo_canonical, True)]"
    by (simp add: untried_def p fails_recoverably_def a l demo_errors)
  show "tried fatal_env demo_dir VIDEO demo_tiktok = []"
    by (simp add: tried_def p fails_recoverably_def a l demo_errors)
qed

text \<open>
  Claim C3 on a link with a video id: with an extractor that answers only the fourth
  candidate, the four are tried in order and the file of the fourth is returned; with
  one whose first failure is not recoverable, the first candidate alone is tried and
  its error raised; with one that fails recoverably on all four, mode \<open>audio\<close> raises
  the last error after the four, and mode \<open>video\<close> requests the page after them and
  raises the last error when the page yields nothing.
\<close>

theorem tiktok_candidates_tried_in_order_witness:
  "detect_platform (py_lower fourth_env) (direct_re fourth_env) demo_tiktok = TIKTOK
   \<and> download_content fourth_env demo_tiktok demo_dir VIDEO
       = ([Extract demo_tiktok False, Extract demo_canonical False, Extract demo_tiktok True,
           Extract demo_canonical True],
          Inr (Some (path_join demo_dir (d_name clip))))
   \<and> download_content fatal_env demo_tiktok demo_dir VIDEO
       = ([Extract demo_tiktok False], Inl fatal)
   \<and> \<not> is_tiktok_extraction_error (py_lower fatal_env) fatal
   \<and> download_content outage_env demo_tiktok demo_dir AUDIO
       = ([Extract demo_tiktok False, Extract demo_canonical False, Extract demo_tiktok True,
           Extract demo_canonical True],
          Inl transient)
   \<and> download_content outage_env demo_tiktok demo_dir VIDEO
       = ([Extract demo_tiktok False, Extract demo_canonical False, Extract demo_tiktok True,
           Extract demo_canonical True, HttpGet demo_tiktok],
          Inl transient)
   \<and> is_tiktok_extraction_error (py_lower outage_env) transient"
proof -
  have va: "VIDEO \<noteq> AUDIO" by (simp add: VIDEO_def AUDIO_def ascii_def)
  have p1: "detect_platform (py_lower fourth_env) (direct_re fourth_env) demo_tiktok = TIKTOK"
    using demo_tiktok_platform by (simp add: fourth_env_def good_env_def)
  have p2: "detect_platform (py_lower fatal_env) (direct_re fatal_env) demo_tiktok = TIKTOK"
    using demo_tiktok_platform by (simp add: fatal_env_def good_env_def)
  have p3: "detect_platform (py_lower outage_env) (direct_re outage_env) demo_tiktok = TIKTOK"
    using demo_tiktok_platform by (simp add: outage_env_def good_env_def)
  note t1 = tiktok_candidates_tried_in_order[OF p1, of demo_dir VIDEO]
  note t2 = tiktok_candidates_tried_in_order[OF p2, of demo_dir VIDEO]
  note t3 = tiktok_candidates_tried_in_order[OF p3, of demo_dir AUDIO]
  note t4 = tiktok_candidates_tried_in_order[OF p3, of demo_dir VIDEO]
  from t1 have a: "download_content fourth_env demo_tiktok demo_dir VIDEO
       = ([Extract demo_tiktok False, Extract demo_canonical False, Extract demo_tiktok True,
           Extract demo_canonical True],
          Inr (Some (path_join demo_dir (d_name clip))))"
    by (simp add: fourth_run fourth_attempts extract_of_def)
  from t2 have b: "download_content fatal_env demo_tiktok demo_dir VIDEO
       = ([Extract demo_tiktok False], Inl fatal)"
    by (simp add: fatal_run extract_of_def)
  from t2 have b': "\<not> is_tiktok_extraction_error (py_lower fatal_env) fatal"
    by (simp add: fatal_run fails_recoverably_def)
  from t3 have c: "download_content outage_env demo_tiktok demo_dir AUDIO
       = ([Extract demo_tiktok False, Extract demo_canonical False, Extract demo_tiktok True,
           Extract demo_canonical True],
          Inl transient)"
    by (auto simp add: outage_run outage_run(3)[unfolded outage_run(1)] extract_of_def)
  from t4 va have d: "download_content outage_env demo_tiktok demo_dir VIDEO
       = ([Extract demo_tiktok False, Extract demo_canonical False, Extract demo_tiktok True,
           Extract demo_canonical True, HttpGet demo_tiktok],
          Inl transient)"
    by (auto simp add: outage_run outage_run(3)[unfolded outage_run(1)] extract_of_def)
  from t4 have e: "is_tiktok_extraction_error (py_lower outage_env) transient"
    by (auto simp add: outage_run outage_run(3)[unfolded outage_run(1)])
  from p1 a b b' c d e show ?thesis by (intro conjI)
qed

section \<open>Proofs: the file that a download returns\<close>

lemma allowed_for_nonempty: "allowed_for fmt \<noteq> []"
  by (simp add: allowed_for_def VIDEO_EXTENSIONS_def AUDIO_EXTENSIONS_def)

lemma extraction_selects:
  assumes "extraction_left ev temp_dir link fmt entries"
  shows "snd (download_content ev link temp_dir fmt)
           = Inr (find_latest_file (py_lower ev) temp_dir entries (allowed_for fmt))"
proof -
  let ?p = "detect_platform (py_lower ev) (direct_re ev) link"
  from assms have nd: "?p \<noteq> DIRECT"
    by (auto simp add: extraction_left_def)
  show ?thesis
  proof (cases "?p = TIKTOK")
    case True
    with assms obtain c cs where u: "untried ev temp_dir fmt link = c # cs"
      and y: "ytdl ev (fst c) (fmt = AUDIO) (snd c) = Inr entries"
      by (cases "untried ev temp_dir fmt link") (auto simp add: extraction_left_def)
    from y have "attempt ev temp_dir fmt c
                   = Inr (find_latest_file (py_lower ev) temp_dir entries (allowed_for fmt))"
      by (simp add: attempt_def download_with_ytdlp_def)
    with tiktok_first_other[OF True u] show ?thesis by simp
  next
    case False
    with assms nd have y: "ytdl ev link (fmt = AUDIO) False = Inr entries"
      by (simp add: extraction_left_def)
    from False nd y show ?thesis
      by (simp add: download_content_def Let_def download_with_ytdlp_def allowed_for_def)
  qed
qed

text \<open>
  Claim C8. Whatever \<open>str.lower()\<close> is and whatever non-empty set of extensions is
  allowed, the set of each mode being one: when files with an allowed extension exist,
  the path selected is that of one of them with the greatest modification time; when
  none has an allowed extension but files exist, it is that of a file with the greatest
  modification time of all; when the workspace holds no file, nothing is selected. A
  download whose extraction succeeded returns the selection over the listing that the
  extraction left, with the set of the requested mode. And when that listing holds no
  file, the task ends \<open>FAILED\<close> with the message of the file not found after the
  download, and nothing is sent.
\<close>

theorem latest_matching_file_is_selected:
  assumes "allowed_ext \<noteq> []"
  shows "(matching_files lower allowed_ext entries \<noteq> [] \<longrightarrow>
           is_latest_of (matching_files lower allowed_ext entries) temp_dir
             (find_latest_file lower temp_dir entries allowed_ext))
       \<and> (matching_files lower allowed_ext entries = [] \<and> workspace_files entries \<noteq> [] \<longrightarrow>
           is_latest_of (workspace_files entries) temp_dir
             (find_latest_file lower temp_dir entries allowed_ext))
       \<and> (workspace_files entries = [] \<longrightarrow>
           find_latest_file lower temp_dir entries allowed_ext = None)
       \<and> allowed_for fmt \<noteq> []
       \<and> (extraction_left ev temp_dir link fmt entries \<longrightarrow>
           snd (download_content ev link temp_dir fmt)
             = Inr (find_latest_file (py_lower ev) temp_dir entries (allowed_for fmt)))
       \<and> (mkdtemp ev = Inr temp_dir \<and> disk_ok ev \<and> announce ev = None
            \<and> extraction_left ev temp_dir link fmt entries \<and> workspace_files entries = [] \<longrightarrow>
           status (o_task (handle_download ev m tid uid link fmt)) = FAILED
           \<and> error_message (o_task (handle_download ev m tid uid link fmt)) = Some not_found_msg
           \<and> \<not> list_ex is_send (o_actions (handle_download ev m tid uid link fmt)))"
proof -
  have "status (o_task (handle_download ev m tid uid link fmt)) = FAILED
           \<and> error_message (o_task (handle_download ev m tid uid link fmt)) = Some not_found_msg
           \<and> \<not> list_ex is_send (o_actions (handle_download ev m tid uid link fmt))"
    if h: "mkdtemp ev = Inr temp_dir" "disk_ok ev" "announce ev = None"
      "extraction_left ev temp_dir link fmt entries" "workspace_files entries = []"
  proof -
    from find_latest_file_spec[OF allowed_for_nonempty, where lower = "py_lower ev" and entries = entries
        and temp_dir = temp_dir and fmt1 = fmt] h(5)
    have "find_latest_file (py_lower ev) temp_dir entries (allowed_for fmt) = None" by simp
    with extraction_selects[OF h(4)]
    have "snd (download_content ev link temp_dir fmt) = Inr None" by simp
    then obtain acts where dc: "download_content ev link temp_dir fmt = (acts, Inr None)"
      by (cases "download_content ev link temp_dir fmt") auto
    have ns: "\<not> list_ex is_send acts"
      using download_content_no_send[of ev link temp_dir fmt] dc by simp
    note tb = try_block_not_found[OF h(1) h(2) h(3) dc]
    show ?thesis
      using ns by (simp add: handle_download_eq[OF tb])
  qed
  with find_latest_file_spec[OF assms, where lower = lower and entries = entries
      and temp_dir = temp_dir] allowed_for_nonempty[of fmt]
    extraction_selects[of ev temp_dir link fmt entries]
  show ?thesis by blast
qed

lemma good_extraction:
  "extraction_left good_env demo_dir demo_link VIDEO [leftover, clip]"
  "extraction_left empty_env demo_dir demo_link VIDEO []"
  using demo_platform
  by (simp_all add: extraction_left_def good_env_def empty_env_def)

lemma fourth_extraction: "extraction_left fourth_env demo_dir demo_tiktok VIDEO [clip]"
proof -
  have "detect_platform (py_lower fourth_env) (direct_re fourth_env) demo_tiktok = TIKTOK"
    using demo_tiktok_platform by (simp add: fourth_env_def good_env_def)
  then show ?thesis
    by (simp add: extraction_left_def fourth_run) (simp add: fourth_env_def good_env_def)
qed

text \<open>
  Claim C8 on a workspace whose newest file is a leftover and whose video has an
  upper-case extension, on a workspace that holds the leftover alone, on the workspace
  that the fourth candidate of a flaky-platform link leaves, and on an extraction that
  leaves the workspace empty.
\<close>

theorem latest_matching_file_is_selected_witness:
  "VIDEO_EXTENSIONS \<noteq> []
   \<and> allowed_for VIDEO = VIDEO_EXTENSIONS
   \<and> matching_files demo_lower VIDEO_EXTENSIONS [leftover, clip] = [clip]
   \<and> is_latest_of [clip] demo_dir
       (find_latest_file demo_lower demo_dir [leftover, clip] VIDEO_EXTENSIONS)
   \<and> matching_files demo_lower VIDEO_EXTENSIONS [leftover] = []
   \<and> workspace_files [leftover] = [leftover]
   \<and> is_latest_of [leftover] demo_dir
       (find_latest_file demo_lower demo_dir [leftover] VIDEO_EXTENSIONS)
   \<and> extraction_left good_env demo_dir demo_link VIDEO [leftover, clip]
   \<and> snd (download_content good_env demo_link demo_dir VIDEO)
       = Inr (Some (path_join demo_dir (d_name clip)))
   \<and> extraction_left fourth_env demo_dir demo_tiktok VIDEO [clip]
   \<and> snd (download_content fourth_env demo_tiktok demo_dir VIDEO)
       = Inr (Some (path_join demo_dir (d_name clip)))
   \<and> extraction_left empty_env demo_dir demo_link VIDEO []
   \<and> status (o_task (handle_download empty_env 2048 1 7 demo_link VIDEO)) = FAILED
   \<and> error_message (o_task (handle_download empty_env 2048 1 7 demo_link VIDEO))
       = Some not_found_msg"
proof -
  have a: "VIDEO_EXTENSIONS \<noteq> []" by (simp add: VIDEO_EXTENSIONS_def)
  have v: "allowed_for VIDEO = VIDEO_EXTENSIONS"
    by (simp add: allowed_for_def VIDEO_def AUDIO_def ascii_def)
  have l: "py_lower good_env = demo_lower" "py_lower fourth_env = demo_lower"
    by (simp_all add: good_env_def fourth_env_def)
  have b: "mkdtemp empty_env = Inr demo_dir" "disk_ok empty_env" "announce empty_env = None"
    by (simp_all add: empty_env_def good_env_def)
  have w: "workspace_files [] = []" by (simp add: workspace_files_def)
  note t1 = latest_matching_file_is_selected[OF a, where lower = demo_lower
      and entries = "[leftover, clip]" and temp_dir = demo_dir and fmt = VIDEO and ev = good_env
      and link = demo_link and m = 2048 and tid = 1 and uid = 7]
  note t2 = latest_matching_file_is_selected[OF a, where lower = demo_lower
      and entries = "[clip]" and temp_dir = demo_dir and fmt = VIDEO and ev = fourth_env
      and link = demo_tiktok and m = 2048 and tid = 1 and uid = 7]
  note t3 = latest_matching_file_is_selected[OF a, where lower = demo_lower
      and entries = "[]" and temp_dir = demo_dir and fmt = VIDEO and ev = empty_env
      and link = demo_link and m = 2048 and tid = 1 and uid = 7]
  have k: "matching_files demo_lower VIDEO_EXTENSIONS [leftover] = []"
    "workspace_files [leftover] = [leftover]"
    by (simp_all add: matching_files_def workspace_files_def VIDEO_EXTENSIONS_def leftover_def
        path_suffix_def demo_lower_def demo_lower_cp_def ascii_def)
  note t0 = latest_matching_file_is_selected[OF a, where lower = demo_lower
      and entries = "[leftover]" and temp_dir = demo_dir and fmt = VIDEO and ev = good_env
      and link = demo_link and m = 2048 and tid = 1 and uid = 7]
  from t0 have g: "is_latest_of [leftover] demo_dir
      (find_latest_file demo_lower demo_dir [leftover] VIDEO_EXTENSIONS)"
    by (simp add: k)
  from t1 have c: "is_latest_of [clip] demo_dir
      (find_latest_file demo_lower demo_dir [leftover, clip] VIDEO_EXTENSIONS)"
    by (simp add: demo_listing)
  from t1 good_extraction(1) have d: "snd (download_content good_env demo_link demo_dir VIDEO)
       = Inr (Some (path_join demo_dir (d_name clip)))"
    by (simp add: v l demo_listing)
  from t2 fourth_extraction
  have e: "snd (download_content fourth_env demo_tiktok demo_dir VIDEO)
       = Inr (Some (path_join demo_dir (d_name clip)))"
    by (simp add: v l clip_listing)
  from t3 b w good_extraction(2)
  have f: "status (o_task (handle_download empty_env 2048 1 7 demo_link VIDEO)) = FAILED
   \<and> error_message (o_task (handle_download empty_env 2048 1 7 demo_link VIDEO))
       = Some not_found_msg"
    by simp
  from a v c d e f g k good_extraction fourth_extraction show ?thesis
    by (simp add: demo_listing)
qed

end
